theory Spec2Isabelle
  imports Complex_Main
begin

section \<open>JavaScript values used by the quiz code\<close>

subsection \<open>Strings\<close>

text \<open>
  A JavaScript string is modelled as a \<^typ>\<open>string\<close>. The quiz code inspects letters,
  digits and white space. The model is that of ASCII text: a character outside ASCII is
  carried as its UTF-8 bytes and taken to be neither white space nor a letter with another
  case, as the multiplication sign of the fallback quiz is.
\<close>

definition toUpperCaseChar :: "char \<Rightarrow> char" where
  "toUpperCaseChar c =
     (case map_of (zip ''abcdefghijklmnopqrstuvwxyz'' ''ABCDEFGHIJKLMNOPQRSTUVWXYZ'') c of
        Some u \<Rightarrow> u
      | None \<Rightarrow> c)"

definition toLowerCaseChar :: "char \<Rightarrow> char" where
  "toLowerCaseChar c =
     (case map_of (zip ''ABCDEFGHIJKLMNOPQRSTUVWXYZ'' ''abcdefghijklmnopqrstuvwxyz'') c of
        Some l \<Rightarrow> l
      | None \<Rightarrow> c)"

definition toUpperCase :: "string \<Rightarrow> string" where
  "toUpperCase s = map toUpperCaseChar s"

definition toLowerCase :: "string \<Rightarrow> string" where
  "toLowerCase s = map toLowerCaseChar s"

text \<open>White space as \<open>trim\<close> and the regular expression class \<open>\s\<close> see it:
  tab, line feed, vertical tab, form feed, carriage return and space.\<close>

definition whitespace :: "char list" where
  "whitespace = [CHR 0x09, CHR 0x0A, CHR 0x0B, CHR 0x0C, CHR 0x0D, CHR '' '']"

definition trim :: "string \<Rightarrow> string" where
  "trim s =
     rev (dropWhile (\<lambda>c. c \<in> set whitespace) (rev (dropWhile (\<lambda>c. c \<in> set whitespace) s)))"

subsection \<open>Numbers\<close>

text \<open>
  A JavaScript number is an IEEE 754 binary64 value. The score computation divides and
  multiplies such numbers, so both operations are modelled exactly: the real result is
  rounded to the nearest binary64 value, ties to the even significand. Only the values the
  score computation can produce are represented: finite numbers (as the rational they
  denote), positive infinity and NaN.
\<close>

datatype jsnum = Finite rat | PosInfinity | NaN

text \<open>The number of binary digits of a positive integer.\<close>

function bit_length :: "int \<Rightarrow> int" where
  "bit_length a = (if a \<le> 0 then 0 else 1 + bit_length (a div 2))"
  by pat_completeness auto
termination
  by (relation "measure nat") auto

text \<open>\<open>binade q\<close> is the exponent \<open>e\<close> with \<open>2^e \<le> q < 2^(e+1)\<close>, for \<open>q > 0\<close>.\<close>

definition binade :: "rat \<Rightarrow> int" where
  "binade q =
     (let (a, b) = quotient_of q;
          k = bit_length a - bit_length b
      in if power_int 2 k \<le> q then k else k - 1)"

definition round_half_even :: "rat \<Rightarrow> int" where
  "round_half_even x =
     (let f = \<lfloor>x\<rfloor>; d = x - of_int f
      in if d < 1 / 2 then f
         else if 1 / 2 < d then f + 1
         else if even f then f else f + 1)"

text \<open>Rounding of a positive real result to binary64: the nearest number with 53
  significant bits. Array lengths are below \<open>2^32\<close>, so the quotients and products of the
  score computation stay far inside the range of the normal numbers, where this is all the
  rounding there is (no overflow to infinity, no subnormal spacing).\<close>

definition round_binary64 :: "rat \<Rightarrow> rat" where
  "round_binary64 q =
     (if q = 0 then 0
      else let ulp = power_int 2 (binade q - 52)
           in of_int (round_half_even (q / ulp)) * ulp)"

text \<open>\<open>a / b\<close> for two array lengths or counters (non-negative integers).\<close>

definition js_div_nat :: "nat \<Rightarrow> nat \<Rightarrow> jsnum" where
  "js_div_nat a b =
     (if b = 0 then (if a = 0 then NaN else PosInfinity)
      else Finite (round_binary64 (of_nat a / of_nat b)))"

text \<open>\<open>x * k\<close> for a non-negative \<open>x\<close> and a positive integer constant \<open>k\<close>.\<close>

definition js_mul_nat :: "jsnum \<Rightarrow> nat \<Rightarrow> jsnum" where
  "js_mul_nat x k =
     (case x of
        Finite q \<Rightarrow> Finite (round_binary64 (q * of_nat k))
      | PosInfinity \<Rightarrow> PosInfinity
      | NaN \<Rightarrow> NaN)"

text \<open>\<open>Math.round\<close>: the integer closest to the argument, the larger one when two are
  equally close.\<close>

definition Math_round :: "jsnum \<Rightarrow> jsnum" where
  "Math_round x =
     (case x of
        Finite q \<Rightarrow> Finite (of_int \<lfloor>q + 1 / 2\<rfloor>)
      | PosInfinity \<Rightarrow> PosInfinity
      | NaN \<Rightarrow> NaN)"

section \<open>The server's quiz sessions: atomic grading\<close>

subsection \<open>Session store\<close>

text \<open>
  \<open>quizSessions\<close> is a plain object \<open>{}\<close> used as a dictionary from the sender's phone
  number to the session. A session is stored as an own property of the object, and the
  object has at most one property of a name. Reading \<open>quizSessions[phone]\<close> also finds what
  the object inherits: the functions of \<open>Object.prototype\<close> under their names, and under
  \<open>__proto__\<close> the prototype of the object itself. Assigning an object to
  \<open>quizSessions['__proto__']\<close> creates no own property: it makes that object the
  prototype, whose properties are inherited from then on; and \<open>delete\<close> removes own
  properties only. So the store is the own properties together with the prototype, which
  is \<open>Object.prototype\<close> (\<open>None\<close>) or a session object (whose prototype is
  \<open>Object.prototype\<close>). \<open>Date.now()\<close> is the clock in milliseconds: each reading is a
  parameter of the function that takes it.
\<close>

record quiz_session =
  subject :: string
  quizText :: string
  correctAnswers :: "string list"
  createdAt :: int
  expiresAt :: int

record quizSessions =
  own :: "string \<rightharpoonup> quiz_session"
  proto :: "quiz_session option"

text \<open>The object \<open>{}\<close> that \<open>quizSessions\<close> is when the module is loaded.\<close>

definition empty_object :: quizSessions where
  "empty_object = \<lparr>own = Map.empty, proto = None\<rparr>"

text \<open>What reading a property of the store can give.\<close>

datatype jsval =
    Undefined
  | Session quiz_session
  | ObjectPrototype
  | BuiltinFunction string
  | StringValue string
  | ArrayValue "string list"
  | NumberValue int

text \<open>The names of the functions of \<open>Object.prototype\<close>.\<close>

definition object_prototype_names :: "string list" where
  "object_prototype_names =
     [''constructor'', ''__defineGetter__'', ''__defineSetter__'', ''hasOwnProperty'',
      ''__lookupGetter__'', ''__lookupSetter__'', ''isPrototypeOf'', ''propertyIsEnumerable'',
      ''toString'', ''valueOf'', ''toLocaleString'']"

text \<open>The own properties of a session object.\<close>

definition session_property :: "quiz_session \<Rightarrow> string \<Rightarrow> jsval option" where
  "session_property s name =
     (if name = ''subject'' then Some (StringValue (subject s))
      else if name = ''quizText'' then Some (StringValue (quizText s))
      else if name = ''correctAnswers'' then Some (ArrayValue (correctAnswers s))
      else if name = ''createdAt'' then Some (NumberValue (createdAt s))
      else if name = ''expiresAt'' then Some (NumberValue (expiresAt s))
      else None)"

text \<open>What the store inherits under a name other than \<open>__proto__\<close>: a property of its
  prototype when that is a session object, else a function of \<open>Object.prototype\<close>.\<close>

definition inherited :: "quizSessions \<Rightarrow> string \<Rightarrow> jsval" where
  "inherited sessions name =
     (case (case proto sessions of Some p \<Rightarrow> session_property p name | None \<Rightarrow> None) of
        Some v \<Rightarrow> v
      | None \<Rightarrow> if name \<in> set object_prototype_names then BuiltinFunction name else Undefined)"

text \<open>\<open>quizSessions[name]\<close>, \<open>quizSessions[name] = session\<close> and
  \<open>delete quizSessions[name]\<close>.\<close>

definition get_property :: "quizSessions \<Rightarrow> string \<Rightarrow> jsval" where
  "get_property sessions name =
     (if name = ''__proto__''
      then (case proto sessions of None \<Rightarrow> ObjectPrototype | Some p \<Rightarrow> Session p)
      else (case own sessions name of
              Some s \<Rightarrow> Session s
            | None \<Rightarrow> inherited sessions name))"

definition set_property :: "quizSessions \<Rightarrow> string \<Rightarrow> quiz_session \<Rightarrow> quizSessions" where
  "set_property sessions name s =
     (if name = ''__proto__'' then sessions\<lparr>proto := Some s\<rparr>
      else sessions\<lparr>own := (own sessions)(name \<mapsto> s)\<rparr>)"

definition delete_property :: "quizSessions \<Rightarrow> string \<Rightarrow> quizSessions" where
  "delete_property sessions name =
     (if name = ''__proto__'' then sessions
      else sessions\<lparr>own := (own sessions)(name := None)\<rparr>)"

text \<open>The values that \<open>!session\<close> does not reject.\<close>

definition truthy :: "jsval \<Rightarrow> bool" where
  "truthy v =
     (case v of
        Undefined \<Rightarrow> False
      | StringValue s \<Rightarrow> s \<noteq> []
      | NumberValue n \<Rightarrow> n \<noteq> 0
      | _ \<Rightarrow> True)"

text \<open>An owner under whose name the store inherits nothing: for such an owner the store
  is a dictionary.\<close>

definition ordinary_owner :: "quizSessions \<Rightarrow> string \<Rightarrow> bool" where
  "ordinary_owner sessions phone =
     (phone \<noteq> ''__proto__'' \<and> inherited sessions phone = Undefined)"

text \<open>\<open>createQuizSession\<close> reads the clock twice: \<open>now1\<close> for \<open>createdAt\<close> and \<open>now2\<close>
  for \<open>expiresAt\<close>.\<close>

definition createQuizSession ::
  "quizSessions \<Rightarrow> string \<Rightarrow> string \<Rightarrow> string \<Rightarrow> string list \<Rightarrow> int \<Rightarrow> int \<Rightarrow> quizSessions" where
  "createQuizSession sessions phone subj text answers now1 now2 =
     set_property sessions phone
       \<lparr>subject = subj, quizText = text, correctAnswers = answers,
        createdAt = now1, expiresAt = now2 + 30 * 60 * 1000\<rparr>"

text \<open>
  \<open>getActiveQuizSession\<close> returns \<open>null\<close> (\<open>None\<close>) or the value it read. Only a session
  object has a property \<open>expiresAt\<close>; for any other value \<open>session.expiresAt\<close> is
  \<open>undefined\<close> and the comparison with it is false.
\<close>

definition getActiveQuizSession ::
  "quizSessions \<Rightarrow> string \<Rightarrow> int \<Rightarrow> quizSessions \<times> jsval option" where
  "getActiveQuizSession sessions phone now =
     (let session = get_property sessions phone
      in if \<not> truthy session then (sessions, None)
         else (case session of
                 Session s \<Rightarrow>
                   if now > expiresAt s then (delete_property sessions phone, None)
                   else (sessions, Some session)
               | _ \<Rightarrow> (sessions, Some session)))"

subsection \<open>Grading\<close>

record question_result =
  questionNumber :: nat
  userAnswer :: string
  correctAnswer :: string
  isCorrect :: bool

text \<open>The object returned on success; \<open>quizSubject\<close> is its field \<open>subject\<close>.\<close>

record grading =
  score :: jsnum
  correctCount :: nat
  totalQuestions :: nat
  results :: "question_result list"
  quizSubject :: string

text \<open>
  The two failure replies \<open>{success: false, message}\<close>, by their message:
  "No active quiz found. Please request a new quiz first." and
  "Please provide N answers." followed by the two accepted formats, where N is the
  interpolated \<open>session.correctAnswers.length\<close>.
\<close>

datatype failure_message = NoActiveQuizFound | PleaseProvideAnswers nat

datatype grade_reply = Failure failure_message | Success grading

datatype js_error = TypeError

text \<open>The \<open>forEach\<close> over \<open>userAnswers\<close> with its index, the counter and the results
  pushed so far. It runs only after the length check, so \<open>index\<close> is inside the key.\<close>

fun grade_each ::
  "string list \<Rightarrow> string list \<Rightarrow> nat \<Rightarrow> nat \<times> question_result list \<Rightarrow> nat \<times> question_result list" where
  "grade_each [] key index acc = acc"
| "grade_each (answer # rest) key index (cnt, res) =
     (let correct = (toUpperCase answer = toUpperCase (key ! index))
      in grade_each rest key (index + 1)
           (if correct then cnt + 1 else cnt,
            res @ [\<lparr>questionNumber = index + 1, userAnswer = toUpperCase answer,
                    correctAnswer = toUpperCase (key ! index), isCorrect = correct\<rparr>]))"

text \<open>\<open>Math.round((correctCount / session.correctAnswers.length) * 100)\<close>.\<close>

definition score_of :: "nat \<Rightarrow> nat \<Rightarrow> jsnum" where
  "score_of cnt n = Math_round (js_mul_nat (js_div_nat cnt n) 100)"

text \<open>
  \<open>gradeQuizAnswers\<close> returns a reply or throws; the store it leaves is returned with
  either. For a value that is not a session object \<open>session.correctAnswers\<close> is
  \<open>undefined\<close>, and reading its \<open>length\<close> throws a \<open>TypeError\<close>.
\<close>

definition gradeQuizAnswers ::
  "quizSessions \<Rightarrow> string \<Rightarrow> string list \<Rightarrow> int \<Rightarrow> quizSessions \<times> (js_error + grade_reply)" where
  "gradeQuizAnswers sessions phone userAnswers now =
     (case getActiveQuizSession sessions phone now of
        (sessions1, None) \<Rightarrow> (sessions1, Inr (Failure NoActiveQuizFound))
      | (sessions1, Some (Session session)) \<Rightarrow>
          if length userAnswers \<noteq> length (correctAnswers session)
          then (sessions1, Inr (Failure (PleaseProvideAnswers (length (correctAnswers session)))))
          else
            let (cnt, res) = grade_each userAnswers (correctAnswers session) 0 (0, []);
                sc = score_of cnt (length (correctAnswers session))
            in (delete_property sessions1 phone,
                Inr (Success \<lparr>score = sc, correctCount = cnt,
                              totalQuestions = length (correctAnswers session),
                              results = res, quizSubject = subject session\<rparr>))
      | (sessions1, Some _) \<Rightarrow> (sessions1, Inl TypeError))"

text \<open>The grading of an outcome, when it is a success.\<close>

definition graded :: "js_error + grade_reply \<Rightarrow> grading option" where
  "graded outcome = (case outcome of Inr (Success g) \<Rightarrow> Some g | _ \<Rightarrow> None)"

text \<open>What the \<open>forEach\<close> pushes for the answer at \<open>i\<close>.\<close>

definition result_at :: "string list \<Rightarrow> string list \<Rightarrow> nat \<Rightarrow> question_result" where
  "result_at userAnswers key i =
     \<lparr>questionNumber = i + 1, userAnswer = toUpperCase (userAnswers ! i),
      correctAnswer = toUpperCase (key ! i),
      isCorrect = (toUpperCase (userAnswers ! i) = toUpperCase (key ! i))\<rparr>"

section \<open>Regular expressions\<close>

text \<open>
  The regular expressions of the quiz code are built from character classes, sequence,
  \<open>?\<close>, \<open>*\<close> and \<open>+\<close>, all greedy. \<open>rx_match n r s\<close> lists what is left of \<open>s\<close>
  after each way \<open>r\<close> can match at the start of \<open>s\<close>, in the order in which a
  backtracking matcher tries them; the head of the list is the match it reports. An
  iteration of \<open>*\<close> has to consume a character, so \<open>length s\<close> iterations are all
  there can be: that is the bound \<open>n\<close>.
\<close>

datatype rx = Eps | Cls "char list" | Seq rx rx | Opt rx | Star rx

fun rx_match :: "nat \<Rightarrow> rx \<Rightarrow> string \<Rightarrow> string list" where
  "rx_match n Eps s = [s]"
| "rx_match n (Cls cs) s =
     (case s of [] \<Rightarrow> [] | c # t \<Rightarrow> if c \<in> set cs then [t] else [])"
| "rx_match n (Seq a b) s = concat (map (rx_match n b) (rx_match n a s))"
| "rx_match n (Opt a) s = rx_match n a s @ [s]"
| "rx_match 0 (Star a) s = [s]"
| "rx_match (Suc n) (Star a) s =
     concat (map (\<lambda>t. if length t < length s then rx_match n (Star a) t else [])
                 (rx_match (Suc n) a s)) @ [s]"

definition Plus :: "rx \<Rightarrow> rx" where
  "Plus a = Seq a (Star a)"

definition seqs :: "rx list \<Rightarrow> rx" where
  "seqs rs = foldr Seq rs Eps"

text \<open>A literal text, and a literal text under the flag \<open>i\<close>.\<close>

definition lit :: "string \<Rightarrow> rx" where
  "lit s = seqs (map (\<lambda>c. Cls [c]) s)"

definition lit_i :: "string \<Rightarrow> rx" where
  "lit_i s = seqs (map (\<lambda>c. Cls [toUpperCaseChar c, toLowerCaseChar c]) s)"

definition digit :: "char list" where
  "digit = ''0123456789''"

text \<open>One attempt at the start of \<open>s\<close>: what is left after the match, if there is one.\<close>

definition rx_exec :: "rx \<Rightarrow> string \<Rightarrow> string option" where
  "rx_exec r s = (case rx_match (length s) r s of [] \<Rightarrow> None | t # _ \<Rightarrow> Some t)"

text \<open>
  No regular expression of the quiz code matches the empty string, so the three searches
  below make no attempt at the end of the text and treat an empty match as none.

  \<open>rx_find_all\<close> is \<open>match\<close> and \<open>matchAll\<close> with the flag \<open>g\<close>, and a loop of
  \<open>exec\<close>: the matched texts from left to right, each search starting where the last
  match ended.
\<close>

fun rx_find_all :: "rx \<Rightarrow> string \<Rightarrow> string list" where
  "rx_find_all r [] = []"
| "rx_find_all r (c # t) =
     (case rx_exec r (c # t) of
        Some u \<Rightarrow>
          if length u < length (c # t)
          then take (length (c # t) - length u) (c # t) # rx_find_all r u
          else rx_find_all r t
      | None \<Rightarrow> rx_find_all r t)"

text \<open>\<open>match\<close> without the flag \<open>g\<close>: the text of the leftmost match.\<close>

fun rx_search :: "rx \<Rightarrow> string \<Rightarrow> string option" where
  "rx_search r [] = None"
| "rx_search r (c # t) =
     (case rx_exec r (c # t) of
        Some u \<Rightarrow>
          if length u < length (c # t) then Some (take (length (c # t) - length u) (c # t))
          else rx_search r t
      | None \<Rightarrow> rx_search r t)"

text \<open>\<open>split\<close> with a regular expression: \<open>acc\<close> is the piece read since the last
  separator.\<close>

fun rx_split_from :: "rx \<Rightarrow> string \<Rightarrow> string \<Rightarrow> string list" where
  "rx_split_from r acc [] = [acc]"
| "rx_split_from r acc (c # t) =
     (case rx_exec r (c # t) of
        Some u \<Rightarrow>
          if length u < length (c # t) then acc # rx_split_from r [] u
          else rx_split_from r (acc @ [c]) t
      | None \<Rightarrow> rx_split_from r (acc @ [c]) t)"

definition rx_split :: "rx \<Rightarrow> string \<Rightarrow> string list" where
  "rx_split r s = rx_split_from r [] s"

text \<open>\<open>split\<close> with a one-character separator.\<close>

fun split_char :: "char \<Rightarrow> string \<Rightarrow> string list" where
  "split_char d [] = [[]]"
| "split_char d (c # t) =
     (if c = d then [] # split_char d t
      else (case split_char d t of p # ps \<Rightarrow> (c # p) # ps | [] \<Rightarrow> [[c]]))"

definition startsWith :: "string \<Rightarrow> string \<Rightarrow> bool" where
  "startsWith s p = (take (length p) s = p)"

section \<open>Reading answers and answer keys\<close>

subsection \<open>parseQuizAnswers\<close>

text \<open>\<open>/\d+([A-D])/g\<close> and \<open>/[A-D]/g\<close>. The group of \<open>pattern1\<close> is the last character
  of its match.\<close>

definition pattern1 :: rx where
  "pattern1 = Seq (Plus (Cls digit)) (Cls ''ABCD'')"

definition pattern2 :: rx where
  "pattern2 = Cls ''ABCD''"

definition parseQuizAnswers :: "string \<Rightarrow> string list" where
  "parseQuizAnswers message =
     (let msg = trim (toUpperCase message);
          matches = rx_find_all pattern1 msg
      in if length matches > 0 then map (\<lambda>m. [last m]) matches
         else let matches2 = rx_find_all pattern2 msg
              in if length matches2 \<ge> 2 then matches2 else [])"

text \<open>
  A reply in the numbered form, for the statement about it: entries, each some text
  without a digit, then a sequence of digits and a letter of the alphabet in either case,
  and after the last entry text without a digit.
\<close>

definition numbered_reply :: "(string \<times> string \<times> char) list \<Rightarrow> string \<Rightarrow> string" where
  "numbered_reply entries rest = concat (map (\<lambda>(sep, ds, l). sep @ ds @ [l]) entries) @ rest"

definition numbered_entry :: "string \<times> string \<times> char \<Rightarrow> bool" where
  "numbered_entry e =
     (case e of (sep, ds, l) \<Rightarrow>
        (\<forall>c \<in> set sep. c \<notin> set digit) \<and> ds \<noteq> [] \<and> (\<forall>c \<in> set ds. c \<in> set digit)
        \<and> l \<in> set ''ABCDabcd'')"

text \<open>
  The numbered form in the words of its description: the letters A to D of a text that
  stand immediately after a digit, in their order. \<open>p\<close> tells whether the character
  before is a digit.
\<close>

fun letters_after_digit :: "bool \<Rightarrow> string \<Rightarrow> string" where
  "letters_after_digit p [] = []"
| "letters_after_digit p (c # t) =
     (if p \<and> c \<in> set ''ABCD'' then c # letters_after_digit False t
      else letters_after_digit (c \<in> set digit) t)"

subsection \<open>extractCorrectAnswers\<close>

text \<open>
  \<open>\d+[-:]?\s*[A-D]\<close> under the flag \<open>i\<close> is one entry of an answer line; it is
  \<open>answerPattern\<close>, whose group is the last character of its match. The two patterns of
  the list are
  \<open>/CORRECT\s+ANSWERS?:?\s*(\d+[-:]?\s*[A-D](?:\s*,\s*\d+[-:]?\s*[A-D])*)/i\<close> and
  \<open>/ANSWERS?:?\s*(\d+[-:]?\s*[A-D](?:\s*,\s*\d+[-:]?\s*[A-D])*)/i\<close>.
\<close>

definition answerPattern :: rx where
  "answerPattern =
     seqs [Plus (Cls digit), Opt (Cls ''-:''), Star (Cls whitespace), Cls ''ABCDabcd'']"

definition answer_list :: rx where
  "answer_list =
     Seq answerPattern
         (Star (seqs [Star (Cls whitespace), Cls '','', Star (Cls whitespace), answerPattern]))"

definition answers_pattern :: rx where
  "answers_pattern =
     seqs [lit_i ''ANSWER'', Opt (Cls ''Ss''), Opt (Cls '':''), Star (Cls whitespace),
           answer_list]"

definition correct_answers_pattern :: rx where
  "correct_answers_pattern =
     seqs [lit_i ''CORRECT'', Plus (Cls whitespace), answers_pattern]"

text \<open>The loop over the two patterns: the first one that matches with at least one entry
  gives the key.\<close>

fun extract_with :: "rx list \<Rightarrow> string \<Rightarrow> string list" where
  "extract_with [] quiz = []"
| "extract_with (pat # pats) quiz =
     (case rx_search pat quiz of
        None \<Rightarrow> extract_with pats quiz
      | Some m \<Rightarrow>
          let answers = map (\<lambda>a. toUpperCase [last a]) (rx_find_all answerPattern m)
          in if length answers > 0 then answers else extract_with pats quiz)"

definition extractCorrectAnswers :: "string \<Rightarrow> string list" where
  "extractCorrectAnswers quiz = extract_with [correct_answers_pattern, answers_pattern] quiz"

subsection \<open>generateQuiz\<close>

text \<open>The text returned when the call to the language model throws.\<close>

definition fallback_quiz :: string where
  "fallback_quiz =
     ''Question 1: What is 15 '' @ [CHR 0xC3, CHR 0x97] @ '' 4? A) 45 B) 60 C) 50 D) 55''
     @ [CHR 0x0A] @ ''Question 2: Solve 2x + 5 = 15 A) x=10 B) x=5 C) x=7.5 D) x=8''
     @ [CHR 0x0A] @ ''Question 3: Area of rectangle? A) 13 B) 40 C) 26 D) 45''"

text \<open>The call to the language model is outside the program: its outcome is a parameter,
  \<open>Some\<close> the text of the response or \<open>None\<close> when the call throws. The subject only
  goes into the prompt.\<close>

definition generateQuiz :: "string \<Rightarrow> string option \<Rightarrow> string" where
  "generateQuiz subj outcome = (case outcome of Some text \<Rightarrow> text | None \<Rightarrow> fallback_quiz)"

section \<open>The WhatsApp handler's quiz sessions: one answer at a time\<close>

text \<open>\<open>qText\<close> is the field \<open>q\<close>, \<open>lines[0]\<close>, which is \<open>undefined\<close> for a block with no
  line.\<close>

record question =
  qText :: "string option"
  options :: "string list"
  answer :: string

record given_answer =
  given :: string
  correct :: string

text \<open>\<open>quizSubject_w\<close> is the field \<open>subject\<close>.\<close>

record w_session =
  quizSubject_w :: string
  questions :: "question list"
  answersGiven :: "given_answer list"

text \<open>
  The handler's \<open>quizSessions\<close> is a plain object too. \<open>startQuiz\<close> and \<open>answerQuiz\<close> are
  not exported; the webhook handler is their only caller, and the key it gives them is
  \<open>senderNormalized\<close>: a string that starts with \<open>whatsapp:\<close>, or else \<open>null\<close>,
  \<open>undefined\<close> or the empty string. The object inherits nothing under such a key, so
  this store is a dictionary.
\<close>

type_synonym w_sessions = "string \<rightharpoonup> w_session"

text \<open>\<open>/Question \d+: /\<close> and \<open>/(\d)-([A-D])/gi\<close>.\<close>

definition question_separator :: rx where
  "question_separator = seqs [lit ''Question '', Plus (Cls digit), lit '': '']"

definition answer_key_entry :: rx where
  "answer_key_entry = seqs [Cls digit, Cls ''-'', Cls ''ABCDabcd'']"

text \<open>The function mapped over the blocks. A match of \<open>answer_key_entry\<close> is a digit,
  a hyphen and a letter, so its \<open>split('-')\<close> has a piece at index 1.\<close>

definition parse_question :: "string \<Rightarrow> question" where
  "parse_question block =
     (let lines = filter (\<lambda>l. trim l \<noteq> []) (split_char (CHR 0x0A) block);
          answerLine =
            (case find (\<lambda>l. startsWith (toLowerCase l) ''correct answers'') lines of
               Some l \<Rightarrow> l | None \<Rightarrow> []);
          answerMatch = rx_find_all answer_key_entry answerLine
      in \<lparr>qText = (case lines of [] \<Rightarrow> None | l # _ \<Rightarrow> Some l),
          options = take 4 (drop 1 lines),
          answer = (case answerMatch of
                      [] \<Rightarrow> ''A''
                    | m # _ \<Rightarrow> toUpperCase (split_char (CHR ''-'') m ! 1))\<rparr>)"

definition startQuiz ::
  "w_sessions \<Rightarrow> string \<Rightarrow> string \<Rightarrow> string option \<Rightarrow> w_sessions \<times> question list" where
  "startQuiz sessions phoneNumber subj outcome =
     (let quiz = generateQuiz subj outcome;
          qs = map parse_question (drop 1 (rx_split question_separator quiz))
      in (sessions(phoneNumber \<mapsto> \<lparr>quizSubject_w = subj, questions = qs, answersGiven = []\<rparr>),
          qs))"

text \<open>
  The replies of \<open>answerQuiz\<close>, by their message: "No active quiz found.", or the
  feedback on the answer ("Correct!", or "Wrong! Correct answer: L") followed, when the
  quiz is finished, by "Quiz finished! Score: c/n".
\<close>

datatype feedback = Correct | Wrong string

datatype answer_message = NoActiveQuiz | Feedback feedback "(nat \<times> nat) option"

record answer_reply =
  finished :: bool
  message :: answer_message

text \<open>
  \<open>session.questions[currentIndex]\<close> is \<open>undefined\<close> outside the list, and reading its
  \<open>answer\<close> throws a \<open>TypeError\<close> before anything is changed. \<open>recordQuizScore\<close> is not
  among the exports of the database module, so the call guarded by it is skipped.
\<close>

definition answerQuiz :: "w_sessions \<Rightarrow> string \<Rightarrow> string \<Rightarrow> js_error + w_sessions \<times> answer_reply" where
  "answerQuiz sessions phoneNumber ans =
     (case sessions phoneNumber of
        None \<Rightarrow> Inr (sessions, \<lparr>finished = True, message = NoActiveQuiz\<rparr>)
      | Some session \<Rightarrow>
          let currentIndex = length (answersGiven session)
          in if currentIndex \<ge> length (questions session) then Inl TypeError
             else
               let currentQuestion = questions session ! currentIndex;
                   ok = (toUpperCase (trim ans) = toUpperCase (answer currentQuestion));
                   given1 = answersGiven session
                              @ [\<lparr>given = ans, correct = answer currentQuestion\<rparr>];
                   fb = (if ok then Correct else Wrong (answer currentQuestion));
                   fin = (length given1 = length (questions session))
               in if fin
                  then
                    let totalCorrect =
                          length (filter (\<lambda>a. toUpperCase (given a) = toUpperCase (correct a))
                                         given1)
                    in Inr (sessions(phoneNumber := None),
                            \<lparr>finished = True,
                             message = Feedback fb
                                         (Some (totalCorrect, length (questions session)))\<rparr>)
                  else Inr (sessions(phoneNumber \<mapsto> session\<lparr>answersGiven := given1\<rparr>),
                            \<lparr>finished = False, message = Feedback fb None\<rparr>))"

text \<open>The stores that calls of \<open>startQuiz\<close> and \<open>answerQuiz\<close> can build from the empty
  one, with any sender, subject, model response and answer.\<close>

inductive reachable :: "w_sessions \<Rightarrow> bool" where
  initial: "reachable Map.empty"
| started: "reachable sessions \<Longrightarrow> reachable (fst (startQuiz sessions phoneNumber subj outcome))"
| answered: "reachable sessions \<Longrightarrow> answerQuiz sessions phoneNumber ans = Inr (sessions1, r)
     \<Longrightarrow> reachable sessions1"

section \<open>Atomic grading: what a grading pass returns\<close>

lemma grade_each_from:
  "as = drop i ua \<Longrightarrow> i \<le> length ua \<Longrightarrow>
   grade_each as key i (cnt, res) =
     (cnt + length (filter (\<lambda>j. toUpperCase (ua ! j) = toUpperCase (key ! j)) [i..<length ua]),
      res @ map (result_at ua key) [i..<length ua])"
proof (induction as arbitrary: i cnt res)
  case Nil
  then show ?case by simp
next
  case (Cons a as)
  from Cons.prems have lt: "i < length ua"
    by (metis drop_eq_Nil2 le_neq_implies_less list.distinct(1) order_refl drop_all)
  from Cons.prems lt have a: "ua ! i = a" and as: "as = drop (Suc i) ua"
    by (simp_all add: Cons_nth_drop_Suc[symmetric])
  have upt: "[i..<length ua] = i # [Suc i..<length ua]"
    using lt by (simp add: upt_conv_Cons)
  show ?case
    using Cons.IH[OF as] lt
    by (simp add: upt a result_at_def Let_def)
qed

lemma grade_each_all:
  "grade_each ua key 0 (0, []) =
     (length (filter (\<lambda>j. toUpperCase (ua ! j) = toUpperCase (key ! j)) [0..<length ua]),
      map (result_at ua key) [0..<length ua])"
  using grade_each_from[of ua 0 ua key 0 "[]"] by simp

subsection \<open>Reading, writing and deleting a property of the store\<close>

text \<open>Under the name of an owner for whom the store inherits nothing, the store is read
  as a dictionary; a session that has just been assigned is read back under every name.\<close>

lemma inherited_set_property:
  "phone \<noteq> ''__proto__'' \<Longrightarrow> inherited (set_property sessions phone s) name = inherited sessions name"
  by (simp add: inherited_def set_property_def)

lemma get_property_ordinary:
  "ordinary_owner sessions phone \<Longrightarrow>
   get_property sessions phone
   = (case own sessions phone of Some s \<Rightarrow> Session s | None \<Rightarrow> Undefined)"
  by (simp add: ordinary_owner_def get_property_def split: option.splits)

lemma get_property_set_property:
  "get_property (set_property sessions phone s) phone = Session s"
  by (simp add: get_property_def set_property_def)

lemma get_property_deleted:
  "ordinary_owner sessions phone \<Longrightarrow> get_property (delete_property sessions phone) phone = Undefined"
  by (simp add: ordinary_owner_def get_property_def delete_property_def inherited_def)

subsection \<open>The three outcomes of a lookup and of a grading pass\<close>

lemma getActiveQuizSession_live:
  "get_property sessions phone = Session session \<Longrightarrow> now \<le> expiresAt session \<Longrightarrow>
   getActiveQuizSession sessions phone now = (sessions, Some (Session session))"
  by (simp add: getActiveQuizSession_def truthy_def)

lemma getActiveQuizSession_expired:
  "get_property sessions phone = Session session \<Longrightarrow> expiresAt session < now \<Longrightarrow>
   getActiveQuizSession sessions phone now = (delete_property sessions phone, None)"
  by (simp add: getActiveQuizSession_def truthy_def)

lemma getActiveQuizSession_absent:
  "get_property sessions phone = Undefined \<Longrightarrow>
   getActiveQuizSession sessions phone now = (sessions, None)"
  by (simp add: getActiveQuizSession_def truthy_def)

lemma gradeQuizAnswers_success:
  assumes "get_property sessions phone = Session session" and "now \<le> expiresAt session"
    and "length userAnswers = length (correctAnswers session)"
  shows "gradeQuizAnswers sessions phone userAnswers now =
    (delete_property sessions phone,
     Inr (Success \<lparr>score =
          score_of (length (filter (\<lambda>j. toUpperCase (userAnswers ! j)
                                          = toUpperCase (correctAnswers session ! j))
                                   [0..<length userAnswers]))
                   (length (correctAnswers session)),
        correctCount =
          length (filter (\<lambda>j. toUpperCase (userAnswers ! j)
                                = toUpperCase (correctAnswers session ! j))
                         [0..<length userAnswers]),
        totalQuestions = length (correctAnswers session),
        results = map (result_at userAnswers (correctAnswers session)) [0..<length userAnswers],
        quizSubject = subject session\<rparr>))"
  using assms by (simp add: gradeQuizAnswers_def getActiveQuizSession_live grade_each_all)

lemma gradeQuizAnswers_absent:
  "get_property sessions phone = Undefined \<Longrightarrow>
   gradeQuizAnswers sessions phone userAnswers now = (sessions, Inr (Failure NoActiveQuizFound))"
  by (simp add: gradeQuizAnswers_def getActiveQuizSession_absent)

lemma gradeQuizAnswers_mismatch:
  assumes "get_property sessions phone = Session session" and "now \<le> expiresAt session"
    and "length userAnswers \<noteq> length (correctAnswers session)"
  shows "gradeQuizAnswers sessions phone userAnswers now =
    (sessions, Inr (Failure (PleaseProvideAnswers (length (correctAnswers session)))))"
  using assms by (simp add: gradeQuizAnswers_def getActiveQuizSession_live)

text \<open>
  C1. A grading pass on a live session, with as many answers as the key has letters,
  succeeds; its \<open>correctCount\<close> is the number of indices at which the answer and the key
  letter agree once both are in upper case, and its results carry, for every index, the
  question number, the two letters in upper case and that comparison.
\<close>

theorem gradeQuizAnswers_counts_matches:
  assumes "get_property sessions phone = Session session" and "now \<le> expiresAt session"
    and "length userAnswers = length (correctAnswers session)"
  shows "\<exists>g. snd (gradeQuizAnswers sessions phone userAnswers now) = Inr (Success g)
    \<and> correctCount g =
        length (filter (\<lambda>i. toUpperCase (userAnswers ! i)
                              = toUpperCase (correctAnswers session ! i))
                       [0..<length userAnswers])
    \<and> results g =
        map (\<lambda>i. \<lparr>questionNumber = i + 1, userAnswer = toUpperCase (userAnswers ! i),
                  correctAnswer = toUpperCase (correctAnswers session ! i),
                  isCorrect = (toUpperCase (userAnswers ! i)
                               = toUpperCase (correctAnswers session ! i))\<rparr>)
            [0..<length userAnswers]"
proof -
  have "result_at userAnswers (correctAnswers session) =
    (\<lambda>i. \<lparr>questionNumber = i + 1, userAnswer = toUpperCase (userAnswers ! i),
           correctAnswer = toUpperCase (correctAnswers session ! i),
           isCorrect = (toUpperCase (userAnswers ! i)
                        = toUpperCase (correctAnswers session ! i))\<rparr>)"
    by (rule ext) (simp add: result_at_def)
  then show ?thesis
    using gradeQuizAnswers_success[of sessions phone session now userAnswers] assms by simp
qed

theorem gradeQuizAnswers_counts_matches_witness:
  "\<exists>g. snd (gradeQuizAnswers
         (createQuizSession empty_object ''+254700000001'' ''Math'' ''quiz''
            [''A'', ''C'', ''B''] 0 0)
         ''+254700000001'' [''a'', ''C'', ''D''] 1000) = Inr (Success g)
     \<and> correctCount g = 2
     \<and> map isCorrect (results g) = [True, True, False]
     \<and> map userAnswer (results g) = [''A'', ''C'', ''D'']"
  using gradeQuizAnswers_counts_matches[of
      "createQuizSession empty_object ''+254700000001'' ''Math'' ''quiz''
            [''A'', ''C'', ''B''] 0 0"
      "''+254700000001''"
      "\<lparr>subject = ''Math'', quizText = ''quiz'',
            correctAnswers = [''A'', ''C'', ''B''], createdAt = 0, expiresAt = 1800000\<rparr>"
      1000 "[''a'', ''C'', ''D'']"]
  by (auto simp add: createQuizSession_def get_property_set_property
        toUpperCase_def toUpperCaseChar_def upt_rec)

text \<open>
  C2. The score of a grading pass is \<open>Math.round\<close> of a quotient and a product computed in
  binary64. For a quiz of 3 questions it is 0, 33, 67 or 100. With 23 correct answers of 40
  the product is the binary64 number just below 57.5 and the score is 57, where
  \<open>100 * 23 / 40 = 57.5\<close> rounds to 58.
\<close>

theorem score_of_23_of_40:
  "map_option score (graded (snd (gradeQuizAnswers
       (createQuizSession empty_object ''+254700000001'' ''Math'' ''quiz'' (replicate 40 ''A'') 0 0)
       ''+254700000001'' (replicate 23 ''a'' @ replicate 17 ''B'') 1000))) = Some (Finite 57)
   \<and> map_option correctCount (graded (snd (gradeQuizAnswers
       (createQuizSession empty_object ''+254700000001'' ''Math'' ''quiz'' (replicate 40 ''A'') 0 0)
       ''+254700000001'' (replicate 23 ''a'' @ replicate 17 ''B'') 1000))) = Some 23
   \<and> map_option totalQuestions (graded (snd (gradeQuizAnswers
       (createQuizSession empty_object ''+254700000001'' ''Math'' ''quiz'' (replicate 40 ''A'') 0 0)
       ''+254700000001'' (replicate 23 ''a'' @ replicate 17 ''B'') 1000))) = Some 40
   \<and> \<lfloor>(100 * 23 / 40 + 1 / 2 :: rat)\<rfloor> = 58
   \<and> score_of 0 3 = Finite 0 \<and> score_of 1 3 = Finite 33
   \<and> score_of 2 3 = Finite 67 \<and> score_of 3 3 = Finite 100"
  by code_simp

section \<open>The life of a session of the server\<close>

text \<open>
  C3, as the code has it, for an owner under whose name the store inherits nothing. A
  lookup returns the stored session exactly when one is stored and the clock is not
  past \<open>expiresAt\<close> (the instant \<open>expiresAt\<close> itself included), and then leaves the
  store as it is; it returns nothing or a session, never another value; past
  \<open>expiresAt\<close> it returns nothing and deletes the entry, after which nothing is read
  under the owner's name. A session created when the clock reads \<open>t0\<close> is returned
  29 min 59 s later and is absent, and deleted, 30 min 1 s later; this holds whatever
  the reading \<open>t1\<close> kept as \<open>createdAt\<close>, so also when both readings are \<open>t0\<close>.
\<close>

theorem getActiveQuizSession_expiry:
  assumes "ordinary_owner sessions phone"
  shows "(snd (getActiveQuizSession sessions phone now) = Some (Session session)
      \<longleftrightarrow> get_property sessions phone = Session session \<and> now \<le> expiresAt session)
   \<and> (snd (getActiveQuizSession sessions phone now) = None
        \<or> (\<exists>s. snd (getActiveQuizSession sessions phone now) = Some (Session s)))
   \<and> (get_property sessions phone = Session session \<and> now \<le> expiresAt session
      \<longrightarrow> fst (getActiveQuizSession sessions phone now) = sessions)
   \<and> (get_property sessions phone = Session session \<and> expiresAt session < now
      \<longrightarrow> getActiveQuizSession sessions phone now = (delete_property sessions phone, None)
          \<and> get_property (fst (getActiveQuizSession sessions phone now)) phone = Undefined)
   \<and> snd (getActiveQuizSession (createQuizSession sessions phone subj text answers t1 t0)
             phone (t0 + (29 * 60 + 59) * 1000))
       = Some (Session \<lparr>subject = subj, quizText = text, correctAnswers = answers,
                        createdAt = t1, expiresAt = t0 + 30 * 60 * 1000\<rparr>)
   \<and> snd (getActiveQuizSession (createQuizSession sessions phone subj text answers t1 t0)
             phone (t0 + (30 * 60 + 1) * 1000)) = None
   \<and> get_property
         (fst (getActiveQuizSession (createQuizSession sessions phone subj text answers t1 t0)
                 phone (t0 + (30 * 60 + 1) * 1000))) phone = Undefined"
proof -
  have p: "phone \<noteq> ''__proto__''"
    using assms by (simp add: ordinary_owner_def)
  have g: "get_property sessions phone
           = (case own sessions phone of Some s \<Rightarrow> Session s | None \<Rightarrow> Undefined)"
    using assms by (rule get_property_ordinary)
  have 1: "snd (getActiveQuizSession sessions phone now) = Some (Session session)
      \<longleftrightarrow> get_property sessions phone = Session session \<and> now \<le> expiresAt session"
    by (auto simp add: g getActiveQuizSession_def truthy_def split: option.splits)
  have 2: "snd (getActiveQuizSession sessions phone now) = None
        \<or> (\<exists>s. snd (getActiveQuizSession sessions phone now) = Some (Session s))"
    by (auto simp add: g getActiveQuizSession_def truthy_def split: option.splits)
  have 3: "get_property sessions phone = Session session \<and> now \<le> expiresAt session
      \<longrightarrow> fst (getActiveQuizSession sessions phone now) = sessions"
    by (simp add: getActiveQuizSession_live)
  have 4: "get_property sessions phone = Session session \<and> expiresAt session < now
      \<longrightarrow> getActiveQuizSession sessions phone now = (delete_property sessions phone, None)
          \<and> get_property (fst (getActiveQuizSession sessions phone now)) phone = Undefined"
    using assms by (simp add: getActiveQuizSession_expired get_property_deleted)
  define created where "created = createQuizSession sessions phone subj text answers t1 t0"
  have c: "get_property created phone
           = Session \<lparr>subject = subj, quizText = text, correctAnswers = answers,
                      createdAt = t1, expiresAt = t0 + 30 * 60 * 1000\<rparr>"
    by (simp add: created_def createQuizSession_def get_property_set_property)
  have o: "ordinary_owner created phone"
    using assms p
    by (simp add: created_def createQuizSession_def ordinary_owner_def inherited_set_property)
  have 5: "snd (getActiveQuizSession created phone (t0 + (29 * 60 + 59) * 1000))
       = Some (Session \<lparr>subject = subj, quizText = text, correctAnswers = answers,
                        createdAt = t1, expiresAt = t0 + 30 * 60 * 1000\<rparr>)"
    using getActiveQuizSession_live[OF c, of "t0 + (29 * 60 + 59) * 1000"] by simp
  have e: "getActiveQuizSession created phone (t0 + (30 * 60 + 1) * 1000)
           = (delete_property created phone, None)"
    using getActiveQuizSession_expired[OF c, of "t0 + (30 * 60 + 1) * 1000"] by simp
  have 6: "snd (getActiveQuizSession created phone (t0 + (30 * 60 + 1) * 1000)) = None"
    by (simp only: e snd_conv)
  have 7: "get_property (fst (getActiveQuizSession created phone (t0 + (30 * 60 + 1) * 1000)))
             phone = Undefined"
    using o by (simp only: e fst_conv get_property_deleted)
  show ?thesis
    using 1 2 3 4 5 6 7 unfolding created_def by blast
qed

theorem getActiveQuizSession_expiry_witness:
  "snd (getActiveQuizSession
          (createQuizSession empty_object ''+254700000001'' ''Math'' ''quiz''
             [''A'', ''C'', ''B''] 0 0)
          ''+254700000001'' 1799000)
     = Some (Session \<lparr>subject = ''Math'', quizText = ''quiz'',
             correctAnswers = [''A'', ''C'', ''B''], createdAt = 0, expiresAt = 1800000\<rparr>)
   \<and> snd (getActiveQuizSession
          (createQuizSession empty_object ''+254700000001'' ''Math'' ''quiz''
             [''A'', ''C'', ''B''] 0 0)
          ''+254700000001'' 1800001) = None
   \<and> get_property
        (fst (getActiveQuizSession
          (createQuizSession empty_object ''+254700000001'' ''Math'' ''quiz''
             [''A'', ''C'', ''B''] 0 0)
          ''+254700000001'' 1800001)) ''+254700000001'' = Undefined"
proof -
  have o: "ordinary_owner
             (createQuizSession empty_object ''+254700000001'' ''Math'' ''quiz''
                [''A'', ''C'', ''B''] 0 0) ''+254700000001''"
    by (simp add: ordinary_owner_def inherited_def empty_object_def object_prototype_names_def
          createQuizSession_def set_property_def)
  have g: "get_property
             (createQuizSession empty_object ''+254700000001'' ''Math'' ''quiz''
                [''A'', ''C'', ''B''] 0 0) ''+254700000001''
           = Session \<lparr>subject = ''Math'', quizText = ''quiz'',
               correctAnswers = [''A'', ''C'', ''B''], createdAt = 0, expiresAt = 1800000\<rparr>"
    by (simp add: createQuizSession_def get_property_set_property)
  have le: "(1799000::int) \<le> expiresAt \<lparr>subject = ''Math'', quizText = ''quiz'',
          correctAnswers = [''A'', ''C'', ''B''], createdAt = 0, expiresAt = 1800000\<rparr>"
    and lt: "expiresAt \<lparr>subject = ''Math'', quizText = ''quiz'',
          correctAnswers = [''A'', ''C'', ''B''], createdAt = 0, expiresAt = 1800000\<rparr>
          < (1800001::int)"
    by simp_all
  have live: "snd (getActiveQuizSession
          (createQuizSession empty_object ''+254700000001'' ''Math'' ''quiz''
             [''A'', ''C'', ''B''] 0 0)
          ''+254700000001'' 1799000)
     = Some (Session \<lparr>subject = ''Math'', quizText = ''quiz'',
             correctAnswers = [''A'', ''C'', ''B''], createdAt = 0, expiresAt = 1800000\<rparr>)"
    using g le
      getActiveQuizSession_expiry[OF o, of 1799000
        "\<lparr>subject = ''Math'', quizText = ''quiz'',
          correctAnswers = [''A'', ''C'', ''B''], createdAt = 0, expiresAt = 1800000\<rparr>"]
    by blast
  have gone: "getActiveQuizSession
          (createQuizSession empty_object ''+254700000001'' ''Math'' ''quiz''
             [''A'', ''C'', ''B''] 0 0)
          ''+254700000001'' 1800001
        = (delete_property
             (createQuizSession empty_object ''+254700000001'' ''Math'' ''quiz''
                [''A'', ''C'', ''B''] 0 0) ''+254700000001'', None)
      \<and> get_property
        (fst (getActiveQuizSession
          (createQuizSession empty_object ''+254700000001'' ''Math'' ''quiz''
             [''A'', ''C'', ''B''] 0 0)
          ''+254700000001'' 1800001)) ''+254700000001'' = Undefined"
    using g lt
      getActiveQuizSession_expiry[OF o, of 1800001
        "\<lparr>subject = ''Math'', quizText = ''quiz'',
          correctAnswers = [''A'', ''C'', ''B''], createdAt = 0, expiresAt = 1800000\<rparr>"]
    by blast
  have none: "snd (getActiveQuizSession
          (createQuizSession empty_object ''+254700000001'' ''Math'' ''quiz''
             [''A'', ''C'', ''B''] 0 0)
          ''+254700000001'' 1800001) = None"
    using gone by simp
  show ?thesis
    using live none gone by blast
qed

text \<open>
  C3, as the claim states it, fails at the instant \<open>expiresAt\<close>: the session created at
  clock reading 0 expires at 1800000, and the lookup at 1800000 still returns it. It
  also fails for an owner named as a property that the store inherits: with no session
  stored, the lookup for \<open>constructor\<close> does not return absent but the function
  \<open>Object.prototype.constructor\<close>.
\<close>

theorem lookup_at_expiry_instant:
  "snd (getActiveQuizSession
          (createQuizSession empty_object ''+254700000001'' ''Math'' ''quiz''
             [''A'', ''C'', ''B''] 0 0)
          ''+254700000001'' 1800000)
   = Some (Session \<lparr>subject = ''Math'', quizText = ''quiz'',
                    correctAnswers = [''A'', ''C'', ''B''],
                    createdAt = 0, expiresAt = 1800000\<rparr>)
   \<and> snd (getActiveQuizSession empty_object ''constructor'' 0)
     = Some (BuiltinFunction ''constructor'')"
  by (simp add: getActiveQuizSession_def createQuizSession_def get_property_def set_property_def
        truthy_def inherited_def empty_object_def object_prototype_names_def)

subsection \<open>A graded session is deleted\<close>

text \<open>
  For an owner under whose name the store inherits nothing, a grading pass that succeeds
  deletes the session: nothing is read under the owner's name in the store it returns,
  and the next grading attempt of that owner, whatever the answers and the time, gets
  the reply "No active quiz found" and leaves the store as it is. The same holds in the
  WhatsApp handler: the call of \<open>answerQuiz\<close> that finishes a quiz deletes the session,
  and the next call gets "No active quiz found".
\<close>

lemma answerQuiz_absent:
  "sessions phoneNumber = None \<Longrightarrow>
   answerQuiz sessions phoneNumber ans = Inr (sessions, \<lparr>finished = True, message = NoActiveQuiz\<rparr>)"
  by (simp add: answerQuiz_def)

lemma answerQuiz_finished:
  assumes "sessions phoneNumber = Some session"
    and "answerQuiz sessions phoneNumber ans = Inr (sessions1, r)" and "finished r"
  shows "sessions1 = sessions(phoneNumber := None)"
  using assms by (auto simp add: answerQuiz_def Let_def split: if_splits)

lemma grading_consumes_session:
  assumes "ordinary_owner sessions phone"
    and "graded (snd (gradeQuizAnswers sessions phone userAnswers now)) \<noteq> None"
  shows "get_property (fst (gradeQuizAnswers sessions phone userAnswers now)) phone = Undefined"
    and "gradeQuizAnswers (fst (gradeQuizAnswers sessions phone userAnswers now))
                phone userAnswers2 now2
              = (fst (gradeQuizAnswers sessions phone userAnswers now),
                 Inr (Failure NoActiveQuizFound))"
proof -
  have g: "get_property sessions phone
           = (case own sessions phone of Some s \<Rightarrow> Session s | None \<Rightarrow> Undefined)"
    using assms(1) by (rule get_property_ordinary)
  have "fst (gradeQuizAnswers sessions phone userAnswers now) = delete_property sessions phone"
    using assms(2)
    by (auto simp add: g gradeQuizAnswers_def getActiveQuizSession_def truthy_def graded_def
        Let_def split: option.splits if_splits prod.splits)
  then show u: "get_property (fst (gradeQuizAnswers sessions phone userAnswers now)) phone = Undefined"
    using assms(1) by (simp add: get_property_deleted)
  show "gradeQuizAnswers (fst (gradeQuizAnswers sessions phone userAnswers now))
                phone userAnswers2 now2
              = (fst (gradeQuizAnswers sessions phone userAnswers now),
                 Inr (Failure NoActiveQuizFound))"
    using u by (rule gradeQuizAnswers_absent)
qed

lemma answerQuiz_consumes_session:
  assumes "wsessions phone = Some wsession"
    and "answerQuiz wsessions phone ans = Inr (wsessions1, r)" and "finished r"
  shows "wsessions1 phone = None"
    and "answerQuiz wsessions1 phone ans2
         = Inr (wsessions1, \<lparr>finished = True, message = NoActiveQuiz\<rparr>)"
proof -
  have "wsessions1 = wsessions(phone := None)"
    using assms by (rule answerQuiz_finished)
  then show n: "wsessions1 phone = None" by simp
  then show "answerQuiz wsessions1 phone ans2
         = Inr (wsessions1, \<lparr>finished = True, message = NoActiveQuiz\<rparr>)"
    by (rule answerQuiz_absent)
qed

text \<open>
  C4 fails for an owner named as a property that the store inherits. The session
  created for \<open>__proto__\<close> becomes the prototype of the store; the grading pass succeeds,
  its \<open>delete\<close> removes nothing and the store is returned as it was, so the next attempt
  is graded again, against the same session. The session created for \<open>constructor\<close> is
  graded and deleted, after which the name reads as the inherited function: the next
  attempt does not get "No active quiz found" but throws a \<open>TypeError\<close>.
\<close>

theorem regrading_under_inherited_name:
  "map_option correctCount (graded (snd (gradeQuizAnswers
       (createQuizSession empty_object ''__proto__'' ''Math'' ''quiz'' [''A'', ''C'', ''B''] 0 0)
       ''__proto__'' [''a'', ''C'', ''D''] 1000))) = Some 2
   \<and> fst (gradeQuizAnswers
       (createQuizSession empty_object ''__proto__'' ''Math'' ''quiz'' [''A'', ''C'', ''B''] 0 0)
       ''__proto__'' [''a'', ''C'', ''D''] 1000)
     = createQuizSession empty_object ''__proto__'' ''Math'' ''quiz'' [''A'', ''C'', ''B''] 0 0
   \<and> map_option correctCount (graded (snd (gradeQuizAnswers
       (fst (gradeQuizAnswers
          (createQuizSession empty_object ''__proto__'' ''Math'' ''quiz'' [''A'', ''C'', ''B''] 0 0)
          ''__proto__'' [''a'', ''C'', ''D''] 1000))
       ''__proto__'' [''A'', ''C'', ''B''] 1001))) = Some 3
   \<and> map_option correctCount (graded (snd (gradeQuizAnswers
       (createQuizSession empty_object ''constructor'' ''Math'' ''quiz'' [''A'', ''C'', ''B''] 0 0)
       ''constructor'' [''a'', ''C'', ''D''] 1000))) = Some 2
   \<and> snd (gradeQuizAnswers
       (fst (gradeQuizAnswers
          (createQuizSession empty_object ''constructor'' ''Math'' ''quiz'' [''A'', ''C'', ''B''] 0 0)
          ''constructor'' [''a'', ''C'', ''D''] 1000))
       ''constructor'' [''a'', ''C'', ''D''] 1001) = Inl TypeError"
proof -
  let ?p = "createQuizSession empty_object ''__proto__'' ''Math'' ''quiz'' [''A'', ''C'', ''B''] 0 0"
  have gp: "get_property ?p ''__proto__''
            = Session \<lparr>subject = ''Math'', quizText = ''quiz'',
                correctAnswers = [''A'', ''C'', ''B''], createdAt = 0,
                expiresAt = 0 + 30 * 60 * 1000\<rparr>"
    by (simp add: createQuizSession_def get_property_set_property)
  have dp: "delete_property ?p ''__proto__'' = ?p"
    by (simp add: delete_property_def)
  have kept: "fst (gradeQuizAnswers ?p ''__proto__'' [''a'', ''C'', ''D''] 1000) = ?p"
    using gradeQuizAnswers_success[OF gp, of 1000 "[''a'', ''C'', ''D'']"]
    by (simp add: dp)
  have first: "map_option correctCount (graded (snd (gradeQuizAnswers ?p
       ''__proto__'' [''a'', ''C'', ''D''] 1000))) = Some 2"
    by code_simp
  have second: "map_option correctCount (graded (snd (gradeQuizAnswers
       (fst (gradeQuizAnswers ?p ''__proto__'' [''a'', ''C'', ''D''] 1000))
       ''__proto__'' [''A'', ''C'', ''B''] 1001))) = Some 3"
    by code_simp
  have third: "map_option correctCount (graded (snd (gradeQuizAnswers
       (createQuizSession empty_object ''constructor'' ''Math'' ''quiz'' [''A'', ''C'', ''B''] 0 0)
       ''constructor'' [''a'', ''C'', ''D''] 1000))) = Some 2"
    by code_simp
  have fourth: "snd (gradeQuizAnswers
       (fst (gradeQuizAnswers
          (createQuizSession empty_object ''constructor'' ''Math'' ''quiz'' [''A'', ''C'', ''B''] 0 0)
          ''constructor'' [''a'', ''C'', ''D''] 1000))
       ''constructor'' [''a'', ''C'', ''D''] 1001) = Inl TypeError"
    by code_simp
  show ?thesis
    using kept first second third fourth by blast
qed

text \<open>
  C5. With a live session and a number of answers other than the length of the key, the
  reply is the failure whose message asks for that many answers; nothing is graded and the
  store is returned unchanged, so that a later attempt with the right number of answers,
  before the expiry, is graded. The failure is a returned value.
\<close>

theorem count_mismatch_keeps_session:
  assumes "get_property sessions phone = Session session" and "now \<le> expiresAt session"
    and "length userAnswers \<noteq> length (correctAnswers session)"
  shows "gradeQuizAnswers sessions phone userAnswers now
           = (sessions, Inr (Failure (PleaseProvideAnswers (length (correctAnswers session)))))
    \<and> (length userAnswers2 = length (correctAnswers session) \<and> now2 \<le> expiresAt session
          \<longrightarrow> graded (snd (gradeQuizAnswers
                   (fst (gradeQuizAnswers sessions phone userAnswers now))
                   phone userAnswers2 now2)) \<noteq> None)"
  using assms gradeQuizAnswers_mismatch[of sessions phone session now userAnswers]
  by (simp add: gradeQuizAnswers_success graded_def)

theorem count_mismatch_keeps_session_witness:
  "gradeQuizAnswers
      (createQuizSession empty_object ''+254700000001'' ''Math'' ''quiz''
         [''A'', ''C'', ''B''] 0 0)
      ''+254700000001'' [''A'', ''C''] 1000
    = (createQuizSession empty_object ''+254700000001'' ''Math'' ''quiz''
         [''A'', ''C'', ''B''] 0 0,
       Inr (Failure (PleaseProvideAnswers 3)))
   \<and> graded (snd (gradeQuizAnswers
        (fst (gradeQuizAnswers
          (createQuizSession empty_object ''+254700000001'' ''Math'' ''quiz''
             [''A'', ''C'', ''B''] 0 0)
          ''+254700000001'' [''A'', ''C''] 1000))
        ''+254700000001'' [''A'', ''C'', ''B''] 2000)) \<noteq> None"
proof -
  have g: "get_property
             (createQuizSession empty_object ''+254700000001'' ''Math'' ''quiz''
                [''A'', ''C'', ''B''] 0 0) ''+254700000001''
           = Session \<lparr>subject = ''Math'', quizText = ''quiz'',
               correctAnswers = [''A'', ''C'', ''B''], createdAt = 0, expiresAt = 1800000\<rparr>"
    by (simp add: createQuizSession_def get_property_set_property)
  show ?thesis
    using count_mismatch_keeps_session[OF g, of 1000 "[''A'', ''C'']" "[''A'', ''C'', ''B'']" 2000]
    by auto
qed

text \<open>
  C8. An object has at most one property of a name, so a sender has at most one session.
  Creating a session for a sender who has one is not refused: afterwards the value read
  under the sender's name is the new session, with the new subject and questions, and the
  store is the one that creating it from a store without the old session gives, and also
  the one that creating it from the store before the old session was stored gives. This
  holds for \<open>createQuizSession\<close> and for \<open>startQuiz\<close>.
\<close>

theorem create_overwrites_session:
  "get_property (createQuizSession (set_property sessions phone old) phone subj text answers
                   now1 now2) phone
     = Session \<lparr>subject = subj, quizText = text, correctAnswers = answers,
                 createdAt = now1, expiresAt = now2 + 30 * 60 * 1000\<rparr>
   \<and> createQuizSession (set_property sessions phone old) phone subj text answers now1 now2
     = createQuizSession (delete_property sessions phone) phone subj text answers now1 now2
   \<and> createQuizSession (set_property sessions phone old) phone subj text answers now1 now2
     = createQuizSession sessions phone subj text answers now1 now2
   \<and> (\<exists>!s. get_property (createQuizSession (set_property sessions phone old) phone subj text
                            answers now1 now2) phone = Session s)
   \<and> fst (startQuiz (wsessions(phone \<mapsto> wold)) phone subj outcome) phone
     = Some \<lparr>quizSubject_w = subj,
              questions = map parse_question
                            (drop 1 (rx_split question_separator (generateQuiz subj outcome))),
              answersGiven = []\<rparr>
   \<and> fst (startQuiz (wsessions(phone \<mapsto> wold)) phone subj outcome)
     = fst (startQuiz (wsessions(phone := None)) phone subj outcome)
   \<and> (\<exists>!s. fst (startQuiz (wsessions(phone \<mapsto> wold)) phone subj outcome) phone = Some s)"
proof -
  have 1: "get_property (createQuizSession (set_property sessions phone old) phone subj text
                   answers now1 now2) phone
     = Session \<lparr>subject = subj, quizText = text, correctAnswers = answers,
                 createdAt = now1, expiresAt = now2 + 30 * 60 * 1000\<rparr>"
    by (simp add: createQuizSession_def get_property_set_property)
  have 2: "createQuizSession (set_property sessions phone old) phone subj text answers now1 now2
     = createQuizSession (delete_property sessions phone) phone subj text answers now1 now2"
    by (simp add: createQuizSession_def set_property_def delete_property_def)
  have 3: "createQuizSession (set_property sessions phone old) phone subj text answers now1 now2
     = createQuizSession sessions phone subj text answers now1 now2"
    by (simp add: createQuizSession_def set_property_def)
  have 4: "\<exists>!s. get_property (createQuizSession (set_property sessions phone old) phone subj text
                            answers now1 now2) phone = Session s"
    by (simp add: 1)
  have 5: "fst (startQuiz (wsessions(phone \<mapsto> wold)) phone subj outcome) phone
     = Some \<lparr>quizSubject_w = subj,
              questions = map parse_question
                            (drop 1 (rx_split question_separator (generateQuiz subj outcome))),
              answersGiven = []\<rparr>
   \<and> fst (startQuiz (wsessions(phone \<mapsto> wold)) phone subj outcome)
     = fst (startQuiz (wsessions(phone := None)) phone subj outcome)
   \<and> (\<exists>!s. fst (startQuiz (wsessions(phone \<mapsto> wold)) phone subj outcome) phone = Some s)"
    by (simp add: startQuiz_def Let_def)
  show ?thesis
    using 1 2 3 4 5 by blast
qed

theorem create_overwrites_session_witness:
  "(\<exists>!s. get_property
      (createQuizSession
         (set_property empty_object ''+254700000001''
            \<lparr>subject = ''Math'', quizText = ''quiz'',
              correctAnswers = [''A'', ''C'', ''B''], createdAt = 0, expiresAt = 1800000\<rparr>)
         ''+254700000001'' ''English'' ''quiz 2'' [''D'', ''D'', ''A''] 5000 5000)
      ''+254700000001'' = Session s)
   \<and> get_property
      (createQuizSession
         (set_property empty_object ''+254700000001''
            \<lparr>subject = ''Math'', quizText = ''quiz'',
              correctAnswers = [''A'', ''C'', ''B''], createdAt = 0, expiresAt = 1800000\<rparr>)
         ''+254700000001'' ''English'' ''quiz 2'' [''D'', ''D'', ''A''] 5000 5000)
      ''+254700000001''
     = Session \<lparr>subject = ''English'', quizText = ''quiz 2'',
         correctAnswers = [''D'', ''D'', ''A''], createdAt = 5000,
         expiresAt = 5000 + 30 * 60 * 1000\<rparr>"
  using create_overwrites_session[of empty_object "''+254700000001''"
      "\<lparr>subject = ''Math'', quizText = ''quiz'',
         correctAnswers = [''A'', ''C'', ''B''], createdAt = 0, expiresAt = 1800000\<rparr>"
      "''English''" "''quiz 2''" "[''D'', ''D'', ''A'']" 5000 5000]
  by blast

section \<open>Answering one question at a time\<close>

lemma reachable_in_bounds:
  "reachable sessions \<Longrightarrow> sessions phone = Some session \<Longrightarrow>
   length (answersGiven session) < length (questions session)
   \<or> (questions session = [] \<and> answersGiven session = [])"
proof (induction arbitrary: phone session rule: reachable.induct)
  case initial
  then show ?case by simp
next
  case (started sessions phoneNumber subj outcome)
  then show ?case
    by (cases "phone = phoneNumber") (auto simp add: startQuiz_def Let_def)
next
  case (answered sessions phoneNumber ans sessions1 r)
  show ?case
  proof (cases "sessions phoneNumber")
    case None
    with answered show ?thesis by (auto simp add: answerQuiz_def)
  next
    case (Some old)
    with answered.IH[of phoneNumber old] answered.IH[of phone session] answered.prems answered.hyps(2)
    show ?thesis
      by (cases "phone = phoneNumber")
         (auto simp add: answerQuiz_def Let_def split: if_splits)
  qed
qed

lemma startQuiz_store:
  "fst (startQuiz sessions phoneNumber subj outcome)
   = sessions(phoneNumber \<mapsto> \<lparr>quizSubject_w = subj,
        questions = snd (startQuiz sessions phoneNumber subj outcome), answersGiven = []\<rparr>)"
  by (simp add: startQuiz_def Let_def)

lemma startQuiz_questions:
  "snd (startQuiz sessions phoneNumber subj outcome)
   = map parse_question (drop 1 (rx_split question_separator (generateQuiz subj outcome)))"
  by (simp add: startQuiz_def Let_def)

lemma fallback_questions:
  "length (map parse_question (drop 1 (rx_split question_separator fallback_quiz))) = 3
   \<and> map answer (map parse_question (drop 1 (rx_split question_separator fallback_quiz)))
       = [''A'', ''A'', ''A'']"
  by code_simp

lemma fallback_no_key: "extractCorrectAnswers fallback_quiz = []"
  by code_simp

lemma no_separator_no_questions:
  "map parse_question (drop 1 (rx_split question_separator ''hello'')) = []"
  by code_simp

text \<open>
  C10. In every store that calls of \<open>startQuiz\<close> and \<open>answerQuiz\<close> can build, a session
  with at least one question has fewer answers given than questions. So \<open>answerQuiz\<close>
  reads a question that exists, the one at index \<open>answersGiven.length\<close>, replies with the
  feedback on it, and deletes the session exactly when this answer is the one for the last
  question; otherwise the session stays, with the answer appended. For a session with no
  question the call throws a \<open>TypeError\<close>: there is no question to read.
\<close>

theorem answerQuiz_question_in_bounds:
  assumes "reachable sessions" and "sessions phone = Some session"
  shows "(questions session \<noteq> [] \<longrightarrow>
            length (answersGiven session) < length (questions session)
          \<and> (\<exists>sessions1 r. answerQuiz sessions phone ans = Inr (sessions1, r)
               \<and> (\<exists>total. message r =
                    Feedback (if toUpperCase (trim ans)
                                 = toUpperCase (answer (questions session
                                                        ! length (answersGiven session)))
                              then Correct
                              else Wrong (answer (questions session
                                                  ! length (answersGiven session))))
                             total)
               \<and> (sessions1 phone = None
                    \<longleftrightarrow> length (answersGiven session) + 1 = length (questions session))
               \<and> (sessions1 phone \<noteq> None \<longrightarrow>
                    sessions1 phone
                    = Some (session\<lparr>answersGiven := answersGiven session
                         @ [\<lparr>given = ans,
                             correct = answer (questions session
                                               ! length (answersGiven session))\<rparr>]\<rparr>))))
     \<and> (questions session = [] \<longrightarrow> answerQuiz sessions phone ans = Inl TypeError)"
proof -
  from reachable_in_bounds[OF assms]
  have inv: "length (answersGiven session) < length (questions session)
   \<or> (questions session = [] \<and> answersGiven session = [])" .
  show ?thesis
    using inv assms(2)
    by (auto simp add: answerQuiz_def Let_def)
qed


theorem answerQuiz_question_in_bounds_witness:
  "answerQuiz (fst (startQuiz Map.empty ''+254700000001'' ''Math'' (Some ''hello'')))
     ''+254700000001'' ''B'' = Inl TypeError
   \<and> (\<exists>sessions1 r.
        answerQuiz (fst (startQuiz Map.empty ''+254700000001'' ''Math'' None))
          ''+254700000001'' ''B'' = Inr (sessions1, r)
        \<and> sessions1 ''+254700000001'' \<noteq> None)"
proof -
  have r0: "reachable (fst (startQuiz Map.empty ''+254700000001'' ''Math'' (Some ''hello'')))"
    and r3: "reachable (fst (startQuiz Map.empty ''+254700000001'' ''Math'' None))"
    by (rule reachable.started[OF reachable.initial])+
  have q0: "snd (startQuiz Map.empty ''+254700000001'' ''Math'' (Some ''hello'')) = []"
    using no_separator_no_questions by (simp add: startQuiz_questions generateQuiz_def)
  have q3: "length (snd (startQuiz Map.empty ''+254700000001'' ''Math'' None)) = 3"
    using fallback_questions by (simp add: startQuiz_questions generateQuiz_def)
  have s0: "fst (startQuiz Map.empty ''+254700000001'' ''Math'' (Some ''hello'')) ''+254700000001''
      = Some \<lparr>quizSubject_w = ''Math'', questions = [], answersGiven = []\<rparr>"
    using q0 by (simp add: startQuiz_store)
  have s3: "fst (startQuiz Map.empty ''+254700000001'' ''Math'' None) ''+254700000001''
      = Some \<lparr>quizSubject_w = ''Math'',
               questions = snd (startQuiz Map.empty ''+254700000001'' ''Math'' None),
               answersGiven = []\<rparr>"
    by (simp add: startQuiz_store)
  have ne: "snd (startQuiz Map.empty ''+254700000001'' ''Math'' None) \<noteq> []"
    using q3 by auto
  show ?thesis
    using answerQuiz_question_in_bounds[OF r0 s0, of "''B''"]
      answerQuiz_question_in_bounds[OF r3 s3, of "''B''"] ne q3
    by auto
qed


section \<open>What the patterns of the parser match\<close>

subsection \<open>The bound on the iterations is never reached\<close>

text \<open>What is left after a match is no longer than the text, so the bound \<open>length s\<close>
  that \<open>rx_exec\<close> gives is enough: any larger bound gives the same matches.\<close>

lemma rx_match_shorter: "t \<in> set (rx_match n r s) \<Longrightarrow> length t \<le> length s"
proof (induction n r s arbitrary: t rule: rx_match.induct)
  case (1 n s)
  then show ?case by simp
next
  case (2 n cs s)
  then show ?case by (cases s) (auto split: if_splits)
next
  case (3 n a b s)
  from "3.prems" obtain u where u: "u \<in> set (rx_match n a s)" and t: "t \<in> set (rx_match n b u)"
    by auto
  from "3.IH"(1)[OF u] "3.IH"(2)[OF u t] show ?case by simp
next
  case (4 n a s)
  then show ?case by auto
next
  case (5 a s)
  then show ?case by simp
next
  case (6 n a s)
  from "6.prems" consider "t = s"
    | u where "u \<in> set (rx_match (Suc n) a s)" "length u < length s" "t \<in> set (rx_match n (Star a) u)"
    by (auto split: if_splits)
  then show ?case
  proof cases
    case 1
    then show ?thesis by simp
  next
    case 2
    from "6.IH"(2)[OF 2(1) 2(2) 2(3)] 2(2) show ?thesis by simp
  qed
qed

lemma rx_match_fuel:
  "length s \<le> n \<Longrightarrow> length s \<le> m \<Longrightarrow> rx_match n r s = rx_match m r s"
proof (induction n r s arbitrary: m rule: rx_match.induct)
  case (1 n s)
  then show ?case by simp
next
  case (2 n cs s)
  then show ?case by simp
next
  case (3 n a b s)
  have a: "rx_match n a s = rx_match m a s"
    using "3.IH"(1) "3.prems" by blast
  have b: "rx_match n b u = rx_match m b u" if "u \<in> set (rx_match n a s)" for u
    using "3.IH"(2)[OF that, of m] rx_match_shorter[OF that] "3.prems" by simp
  have eq: "map (rx_match n b) (rx_match n a s) = map (rx_match m b) (rx_match n a s)"
    using b by (intro map_cong) auto
  have "rx_match n (Seq a b) s = concat (map (rx_match n b) (rx_match n a s))"
    by (simp only: rx_match.simps)
  also have "\<dots> = concat (map (rx_match m b) (rx_match n a s))"
    by (simp only: eq)
  also have "\<dots> = concat (map (rx_match m b) (rx_match m a s))"
    by (simp only: a)
  also have "\<dots> = rx_match m (Seq a b) s"
    by (simp only: rx_match.simps)
  finally show ?case .
next
  case (4 n a s)
  have "rx_match n a s = rx_match m a s"
    using "4.IH"[of m] "4.prems" by blast
  then show ?case by (simp only: rx_match.simps)
next
  case (5 a s)
  then have s: "s = []" by simp
  show ?case by (cases m) (simp_all add: s)
next
  case (6 n a s)
  show ?case
  proof (cases m)
    case 0
    with "6.prems" have s: "s = []" by simp
    show ?thesis by (simp add: 0 s)
  next
    case (Suc k)
    have a: "rx_match (Suc n) a s = rx_match (Suc k) a s"
      using "6.IH"(1)[of "Suc k"] "6.prems" Suc by simp
    have b: "rx_match n (Star a) u = rx_match k (Star a) u"
      if "u \<in> set (rx_match (Suc n) a s)" "length u < length s" for u
      using "6.IH"(2)[OF that, of k] that(2) "6.prems" Suc by simp
    have eq: "map (\<lambda>t. if length t < length s then rx_match n (Star a) t else [])
              (rx_match (Suc n) a s)
          = map (\<lambda>t. if length t < length s then rx_match k (Star a) t else [])
              (rx_match (Suc n) a s)"
      using b by (intro map_cong) auto
    have "rx_match (Suc n) (Star a) s
          = concat (map (\<lambda>t. if length t < length s then rx_match n (Star a) t else [])
                        (rx_match (Suc n) a s)) @ [s]"
      by (simp only: rx_match.simps)
    also have "\<dots> = concat (map (\<lambda>t. if length t < length s then rx_match k (Star a) t else [])
                        (rx_match (Suc n) a s)) @ [s]"
      by (simp only: eq)
    also have "\<dots> = concat (map (\<lambda>t. if length t < length s then rx_match k (Star a) t else [])
                        (rx_match (Suc k) a s)) @ [s]"
      by (simp only: a)
    also have "\<dots> = rx_match (Suc k) (Star a) s"
      by (simp only: rx_match.simps)
    finally show ?thesis unfolding Suc .
  qed
qed

lemma rx_exec_fuel:
  "length s \<le> n \<Longrightarrow>
   rx_exec r s = (case rx_match n r s of [] \<Rightarrow> None | t # _ \<Rightarrow> Some t)"
  using rx_match_fuel[of s "length s" n r] by (simp add: rx_exec_def)

subsection \<open>Digits followed by a letter\<close>

lemma star_run:
  assumes "set xs \<subseteq> set dcs" and "rest = [] \<or> hd rest \<notin> set dcs" and "length xs \<le> n"
    and f: "\<And>d t. d \<in> set dcs \<Longrightarrow> f (d # t) = []"
  shows "concat (map f (rx_match n (Star (Cls dcs)) (xs @ rest))) = f rest"
  using assms(1-3)
proof (induction xs arbitrary: n)
  case Nil
  then show ?case by (cases n; cases rest) auto
next
  case (Cons d xs)
  then obtain m where n: "n = Suc m" by (cases n) auto
  from Cons.prems have d: "d \<in> set dcs" by auto
  from Cons.IH[of m] Cons.prems n
  have ih: "concat (map f (rx_match m (Star (Cls dcs)) (xs @ rest))) = f rest"
    by simp
  show ?case using ih d f[OF d] by (simp add: n)
qed

lemma digit_not_letter: "c \<in> set digit \<Longrightarrow> c \<notin> set ''ABCD''"
  by (auto simp add: digit_def)

lemma pattern1_at_nondigit: "c \<notin> set digit \<Longrightarrow> rx_exec pattern1 (c # t) = None"
  by (simp add: rx_exec_def pattern1_def Plus_def)

lemma pattern1_at_digit:
  "d \<in> set digit \<Longrightarrow>
   rx_match n pattern1 (d # t)
   = concat (map (rx_match n (Cls ''ABCD'')) (rx_match n (Star (Cls digit)) t))"
  by (simp add: pattern1_def Plus_def)

lemma pattern1_after_digits:
  assumes d: "d \<in> set digit" and xs: "set xs \<subseteq> set digit"
    and rest: "rest = [] \<or> hd rest \<notin> set digit" and n: "length xs \<le> n"
  shows "rx_match n pattern1 (d # xs @ rest) = rx_match n (Cls ''ABCD'') rest"
proof -
  have f: "\<And>c t. c \<in> set digit \<Longrightarrow> rx_match n (Cls ''ABCD'') (c # t) = []"
    using digit_not_letter by simp
  show ?thesis
    unfolding pattern1_at_digit[OF d]
    using star_run[of xs digit rest n "rx_match n (Cls ''ABCD'')"] xs rest n f
    by blast
qed

lemma pattern1_at_entry:
  assumes "ds \<noteq> []" and "set ds \<subseteq> set digit" and "l \<in> set ''ABCD''"
  shows "rx_exec pattern1 (ds @ l # u) = Some u"
proof -
  from assms obtain d xs where ds: "ds = d # xs" by (cases ds) auto
  with assms have d: "d \<in> set digit" and xs: "set xs \<subseteq> set digit" by auto
  have l: "l # u = [] \<or> hd (l # u) \<notin> set digit"
    using assms(3) digit_not_letter by auto
  have "rx_match (length (d # xs @ l # u)) pattern1 (d # xs @ l # u)
        = rx_match (length (d # xs @ l # u)) (Cls ''ABCD'') (l # u)"
    by (rule pattern1_after_digits[OF d xs l]) simp
  also have "\<dots> = [u]" using assms(3) by simp
  finally show ?thesis by (simp only: rx_exec_def ds append_Cons list.case)
qed

lemma pattern1_at_dangling:
  assumes "ds \<noteq> []" and "set ds \<subseteq> set digit"
    and "rest = [] \<or> hd rest \<notin> set digit \<and> hd rest \<notin> set ''ABCD''"
  shows "rx_exec pattern1 (ds @ rest) = None"
proof -
  from assms obtain d xs where ds: "ds = d # xs" by (cases ds) auto
  with assms have d: "d \<in> set digit" and xs: "set xs \<subseteq> set digit" by auto
  have r: "rest = [] \<or> hd rest \<notin> set digit"
    using assms(3) by auto
  have "rx_match (length (d # xs @ rest)) pattern1 (d # xs @ rest)
        = rx_match (length (d # xs @ rest)) (Cls ''ABCD'') rest"
    by (rule pattern1_after_digits[OF d xs r]) simp
  also have "\<dots> = []" using assms(3) by (cases rest) auto
  finally show ?thesis by (simp only: rx_exec_def ds append_Cons list.case)
qed

lemma find_all_pattern1_skip:
  "set sep \<inter> set digit = {} \<Longrightarrow> rx_find_all pattern1 (sep @ t) = rx_find_all pattern1 t"
  by (induction sep) (auto simp add: pattern1_at_nondigit)

lemma find_all_pattern1_none:
  "set t \<inter> set digit = {} \<Longrightarrow> rx_find_all pattern1 t = []"
  using find_all_pattern1_skip[of t "[]"] by simp

lemma find_all_pattern1_entry:
  assumes "ds \<noteq> []" and "set ds \<subseteq> set digit" and "l \<in> set ''ABCD''"
  shows "rx_find_all pattern1 (ds @ l # u) = (ds @ [l]) # rx_find_all pattern1 u"
proof -
  from assms obtain d xs where ds: "ds = d # xs" by (cases ds) auto
  have "rx_exec pattern1 (d # xs @ l # u) = Some u"
    using pattern1_at_entry[OF assms, of u] ds by simp
  then show ?thesis by (simp add: ds)
qed

subsection \<open>Upper and lower case\<close>

lemma upper_digit:
  assumes "c \<in> set digit" shows "toUpperCaseChar c = c"
proof -
  from assms have "c = CHR ''0'' \<or> c = CHR ''1'' \<or> c = CHR ''2'' \<or> c = CHR ''3'' \<or> c = CHR ''4''
      \<or> c = CHR ''5'' \<or> c = CHR ''6'' \<or> c = CHR ''7'' \<or> c = CHR ''8'' \<or> c = CHR ''9''"
    by (simp add: digit_def)
  then show ?thesis
    by (elim disjE) (simp_all add: toUpperCaseChar_def)
qed

lemma upper_letter:
  assumes "l \<in> set ''ABCDabcd''" shows "toUpperCaseChar l \<in> set ''ABCD''"
proof -
  from assms have "l = CHR ''A'' \<or> l = CHR ''B'' \<or> l = CHR ''C'' \<or> l = CHR ''D''
      \<or> l = CHR ''a'' \<or> l = CHR ''b'' \<or> l = CHR ''c'' \<or> l = CHR ''d''"
    by simp
  then show ?thesis
    by (elim disjE) (simp_all add: toUpperCaseChar_def)
qed

lemma whitespace_not_digit: "c \<in> set whitespace \<Longrightarrow> c \<notin> set digit"
  by (auto simp add: whitespace_def digit_def)

lemma whitespace_not_letter: "c \<in> set whitespace \<Longrightarrow> c \<notin> set ''ABCD''"
  by (auto simp add: whitespace_def)

lemma upper_unmapped:
  "map_of (zip ''abcdefghijklmnopqrstuvwxyz'' ''ABCDEFGHIJKLMNOPQRSTUVWXYZ'') c = None
   \<Longrightarrow> toUpperCaseChar c = c"
  by (simp only: toUpperCaseChar_def option.case)

lemma upper_mapped:
  "map_of (zip ''abcdefghijklmnopqrstuvwxyz'' ''ABCDEFGHIJKLMNOPQRSTUVWXYZ'') c = Some u
   \<Longrightarrow> toUpperCaseChar c = u"
  by (simp only: toUpperCaseChar_def option.case)

lemma upper_cases:
  "toUpperCaseChar c = c \<or> toUpperCaseChar c \<in> set ''ABCDEFGHIJKLMNOPQRSTUVWXYZ''"
proof (cases "map_of (zip ''abcdefghijklmnopqrstuvwxyz'' ''ABCDEFGHIJKLMNOPQRSTUVWXYZ'') c")
  case None
  then show ?thesis using upper_unmapped by blast
next
  case (Some u)
  then have "u \<in> set ''ABCDEFGHIJKLMNOPQRSTUVWXYZ''"
    by (meson map_of_SomeD set_zip_rightD)
  with Some show ?thesis using upper_mapped by blast
qed

lemma lower_unmapped:
  "map_of (zip ''ABCDEFGHIJKLMNOPQRSTUVWXYZ'' ''abcdefghijklmnopqrstuvwxyz'') c = None
   \<Longrightarrow> toLowerCaseChar c = c"
  by (simp only: toLowerCaseChar_def option.case)

lemma lower_mapped:
  "map_of (zip ''ABCDEFGHIJKLMNOPQRSTUVWXYZ'' ''abcdefghijklmnopqrstuvwxyz'') c = Some u
   \<Longrightarrow> toLowerCaseChar c = u"
  by (simp only: toLowerCaseChar_def option.case)

lemma upper_capital:
  assumes "u \<in> set ''ABCDEFGHIJKLMNOPQRSTUVWXYZ''" shows "toUpperCaseChar u = u"
proof -
  from assms have "u = CHR ''A'' \<or> u = CHR ''B'' \<or> u = CHR ''C'' \<or> u = CHR ''D'' \<or> u = CHR ''E''
    \<or> u = CHR ''F'' \<or> u = CHR ''G'' \<or> u = CHR ''H'' \<or> u = CHR ''I'' \<or> u = CHR ''J''
    \<or> u = CHR ''K'' \<or> u = CHR ''L'' \<or> u = CHR ''M'' \<or> u = CHR ''N'' \<or> u = CHR ''O''
    \<or> u = CHR ''P'' \<or> u = CHR ''Q'' \<or> u = CHR ''R'' \<or> u = CHR ''S'' \<or> u = CHR ''T''
    \<or> u = CHR ''U'' \<or> u = CHR ''V'' \<or> u = CHR ''W'' \<or> u = CHR ''X'' \<or> u = CHR ''Y''
    \<or> u = CHR ''Z''"
    by simp
  then show ?thesis
    by (elim disjE) (simp_all add: toUpperCaseChar_def)
qed

lemma upper_upper: "toUpperCaseChar (toUpperCaseChar c) = toUpperCaseChar c"
  using upper_cases[of c] upper_capital by metis

lemma upper_of_lowered:
  assumes "(c, l) \<in> set (zip ''ABCDEFGHIJKLMNOPQRSTUVWXYZ'' ''abcdefghijklmnopqrstuvwxyz'')"
  shows "toUpperCaseChar l = c"
proof -
  from assms have "(c = CHR ''A'' \<and> l = CHR ''a'') \<or> (c = CHR ''B'' \<and> l = CHR ''b'')
    \<or> (c = CHR ''C'' \<and> l = CHR ''c'') \<or> (c = CHR ''D'' \<and> l = CHR ''d'')
    \<or> (c = CHR ''E'' \<and> l = CHR ''e'') \<or> (c = CHR ''F'' \<and> l = CHR ''f'')
    \<or> (c = CHR ''G'' \<and> l = CHR ''g'') \<or> (c = CHR ''H'' \<and> l = CHR ''h'')
    \<or> (c = CHR ''I'' \<and> l = CHR ''i'') \<or> (c = CHR ''J'' \<and> l = CHR ''j'')
    \<or> (c = CHR ''K'' \<and> l = CHR ''k'') \<or> (c = CHR ''L'' \<and> l = CHR ''l'')
    \<or> (c = CHR ''M'' \<and> l = CHR ''m'') \<or> (c = CHR ''N'' \<and> l = CHR ''n'')
    \<or> (c = CHR ''O'' \<and> l = CHR ''o'') \<or> (c = CHR ''P'' \<and> l = CHR ''p'')
    \<or> (c = CHR ''Q'' \<and> l = CHR ''q'') \<or> (c = CHR ''R'' \<and> l = CHR ''r'')
    \<or> (c = CHR ''S'' \<and> l = CHR ''s'') \<or> (c = CHR ''T'' \<and> l = CHR ''t'')
    \<or> (c = CHR ''U'' \<and> l = CHR ''u'') \<or> (c = CHR ''V'' \<and> l = CHR ''v'')
    \<or> (c = CHR ''W'' \<and> l = CHR ''w'') \<or> (c = CHR ''X'' \<and> l = CHR ''x'')
    \<or> (c = CHR ''Y'' \<and> l = CHR ''y'') \<or> (c = CHR ''Z'' \<and> l = CHR ''z'')"
    by simp
  then show ?thesis
    by (elim disjE conjE) (simp_all add: toUpperCaseChar_def)
qed

lemma upper_lower: "toUpperCaseChar (toLowerCaseChar c) = toUpperCaseChar c"
proof (cases "map_of (zip ''ABCDEFGHIJKLMNOPQRSTUVWXYZ'' ''abcdefghijklmnopqrstuvwxyz'') c")
  case None
  then show ?thesis by (simp only: lower_unmapped)
next
  case (Some l)
  then have "(c, l) \<in> set (zip ''ABCDEFGHIJKLMNOPQRSTUVWXYZ'' ''abcdefghijklmnopqrstuvwxyz'')"
    by (rule map_of_SomeD)
  then have "toUpperCaseChar l = c" and "c \<in> set ''ABCDEFGHIJKLMNOPQRSTUVWXYZ''"
    by (rule upper_of_lowered, rule set_zip_leftD)
  then show ?thesis
    using lower_mapped[OF Some] upper_capital by simp
qed

lemma capital_not_digit: "u \<in> set ''ABCDEFGHIJKLMNOPQRSTUVWXYZ'' \<Longrightarrow> u \<notin> set digit"
  by (auto simp add: digit_def)

lemma upper_nondigit: "c \<notin> set digit \<Longrightarrow> toUpperCaseChar c \<notin> set digit"
  using upper_cases[of c] capital_not_digit by metis

subsection \<open>Replies in the numbered form\<close>

lemma trim_core:
  assumes "core \<noteq> []" and "hd core \<notin> set whitespace" and "last core \<notin> set whitespace"
  shows "trim (pre @ core @ post)
         = dropWhile (\<lambda>c. c \<in> set whitespace) pre @ core
           @ rev (dropWhile (\<lambda>c. c \<in> set whitespace) (rev post))"
proof -
  from assms obtain a as where core: "core = a # as" and a: "a \<notin> set whitespace"
    by (cases core) auto
  from assms obtain bs b where core2: "core = bs @ [b]" and b: "b \<notin> set whitespace"
    by (cases core rule: rev_cases) auto
  have 1: "dropWhile (\<lambda>c. c \<in> set whitespace) (pre @ core @ post)
           = dropWhile (\<lambda>c. c \<in> set whitespace) pre @ core @ post"
    using a by (simp add: core dropWhile_append3)
  have 2: "rev (dropWhile (\<lambda>c. c \<in> set whitespace) pre @ core @ post)
           = rev post @ b # rev bs @ rev (dropWhile (\<lambda>c. c \<in> set whitespace) pre)"
    by (simp add: core2)
  have 3: "dropWhile (\<lambda>c. c \<in> set whitespace)
             (rev post @ b # rev bs @ rev (dropWhile (\<lambda>c. c \<in> set whitespace) pre))
           = dropWhile (\<lambda>c. c \<in> set whitespace) (rev post)
             @ b # rev bs @ rev (dropWhile (\<lambda>c. c \<in> set whitespace) pre)"
    using b by (simp add: dropWhile_append3)
  show ?thesis
    unfolding trim_def 1 2 3 by (simp add: core2)
qed

lemma numbered_reply_Nil: "numbered_reply [] rest = rest"
  by (simp add: numbered_reply_def)

lemma numbered_reply_Cons:
  "numbered_reply ((sep, ds, l) # entries) rest = sep @ ds @ l # numbered_reply entries rest"
  by (simp add: numbered_reply_def)

lemma numbered_reply_rest:
  "numbered_reply entries rest = numbered_reply entries [] @ rest"
  by (simp add: numbered_reply_def)

text \<open>Entries after upper-casing: the letter is one of A to D.\<close>

lemma find_all_numbered:
  assumes "\<forall>(sep, ds, l) \<in> set entries.
             set sep \<inter> set digit = {} \<and> ds \<noteq> [] \<and> set ds \<subseteq> set digit \<and> l \<in> set ''ABCD''"
    and "set rest \<inter> set digit = {}"
  shows "rx_find_all pattern1 (numbered_reply entries rest)
         = map (\<lambda>(sep, ds, l). ds @ [l]) entries"
  using assms(1)
proof (induction entries)
  case Nil
  then show ?case using assms(2) by (simp add: numbered_reply_Nil find_all_pattern1_none)
next
  case (Cons e entries)
  obtain sep ds l where e: "e = (sep, ds, l)" by (cases e) auto
  from Cons.prems e have sep: "set sep \<inter> set digit = {}" and ds: "ds \<noteq> []" "set ds \<subseteq> set digit"
    and l: "l \<in> set ''ABCD''" by auto
  have "rx_find_all pattern1 (numbered_reply (e # entries) rest)
        = rx_find_all pattern1 (ds @ l # numbered_reply entries rest)"
    unfolding e numbered_reply_Cons by (rule find_all_pattern1_skip[OF sep])
  also have "\<dots> = (ds @ [l]) # rx_find_all pattern1 (numbered_reply entries rest)"
    by (rule find_all_pattern1_entry[OF ds l])
  finally show ?case using Cons by (simp add: e)
qed

lemma last_numbered:
  assumes "\<forall>(sep, ds, l) \<in> set entries. l \<notin> set whitespace" and "x \<notin> set whitespace"
  shows "last (x # numbered_reply entries []) \<notin> set whitespace"
  using assms
proof (induction entries arbitrary: x)
  case Nil
  then show ?case by (simp add: numbered_reply_Nil)
next
  case (Cons e entries)
  obtain sep ds l where e: "e = (sep, ds, l)" by (cases e) auto
  have "last (x # numbered_reply (e # entries) []) = last (l # numbered_reply entries [])"
    by (simp add: e numbered_reply_Cons)
  then show ?case using Cons.IH[of l] Cons.prems e by simp
qed

lemma toUpperCase_numbered:
  "toUpperCase (numbered_reply entries rest)
   = numbered_reply (map (\<lambda>(sep, ds, l). (toUpperCase sep, toUpperCase ds, toUpperCaseChar l)) entries)
                    (toUpperCase rest)"
  by (induction entries) (auto simp add: numbered_reply_def toUpperCase_def)

lemma upper_entry:
  assumes "numbered_entry (sep, ds, l)"
  shows "set (toUpperCase sep) \<inter> set digit = {} \<and> toUpperCase ds \<noteq> []
         \<and> set (toUpperCase ds) \<subseteq> set digit \<and> toUpperCaseChar l \<in> set ''ABCD''"
proof -
  from assms have sep: "\<forall>c \<in> set sep. c \<notin> set digit" and ds: "ds \<noteq> []" "\<forall>c \<in> set ds. c \<in> set digit"
    and l: "l \<in> set ''ABCDabcd''"
    by (auto simp add: numbered_entry_def)
  have "set (toUpperCase sep) \<inter> set digit = {}"
    using sep upper_nondigit by (auto simp add: toUpperCase_def)
  moreover have "toUpperCase ds \<noteq> []" using ds by (simp add: toUpperCase_def)
  moreover have "set (toUpperCase ds) \<subseteq> set digit"
    using ds upper_digit by (auto simp add: toUpperCase_def)
  moreover have "toUpperCaseChar l \<in> set ''ABCD''" using l by (rule upper_letter)
  ultimately show ?thesis by blast
qed

lemma parseQuizAnswers_numbered:
  assumes ne: "entries \<noteq> []" and ok: "\<forall>e \<in> set entries. numbered_entry e"
    and rest: "\<forall>c \<in> set rest. c \<notin> set digit"
  shows "parseQuizAnswers (numbered_reply entries rest)
         = map (\<lambda>(sep, ds, l). [toUpperCaseChar l]) entries"
proof -
  define up :: "string \<times> string \<times> char \<Rightarrow> string \<times> string \<times> char"
    where "up = (\<lambda>(sep, ds, l). (toUpperCase sep, toUpperCase ds, toUpperCaseChar l))"
  define ws where "ws = (\<lambda>c. c \<in> set whitespace)"
  have upok: "\<forall>(sep, ds, l) \<in> set (map up entries).
      set sep \<inter> set digit = {} \<and> ds \<noteq> [] \<and> set ds \<subseteq> set digit \<and> l \<in> set ''ABCD''"
    using ok upper_entry by (fastforce simp add: up_def)
  from ne obtain sep ds l E0 where E: "map up entries = (sep, ds, l) # E0"
    by (cases "map up entries") auto
  from upok E have sep: "set sep \<inter> set digit = {}" and ds: "ds \<noteq> []" "set ds \<subseteq> set digit"
    and l: "l \<in> set ''ABCD''"
    and E0: "\<forall>(sep, ds, l) \<in> set E0.
      set sep \<inter> set digit = {} \<and> ds \<noteq> [] \<and> set ds \<subseteq> set digit \<and> l \<in> set ''ABCD''"
    by auto
  define core where "core = ds @ l # numbered_reply E0 []"
  define R where "R = toUpperCase rest"
  have R: "set R \<inter> set digit = {}"
    using rest upper_nondigit by (auto simp add: R_def toUpperCase_def)
  have shape: "toUpperCase (numbered_reply entries rest) = sep @ core @ R"
    unfolding toUpperCase_numbered up_def[symmetric] E numbered_reply_Cons core_def R_def
    using numbered_reply_rest[of E0 "toUpperCase rest"] by simp
  have c1: "core \<noteq> []" by (simp add: core_def)
  have c2: "hd core \<notin> set whitespace"
    using ds whitespace_not_digit by (cases ds) (auto simp add: core_def)
  have e0: "\<forall>(sep, ds, l) \<in> set E0. l \<notin> set whitespace"
    using E0 whitespace_not_letter by fastforce
  have l0: "l \<notin> set whitespace"
    using l whitespace_not_letter by blast
  have "last (l # numbered_reply E0 []) \<notin> set whitespace"
    by (rule last_numbered[OF e0 l0])
  then have c3: "last core \<notin> set whitespace" by (simp add: core_def)
  have trimmed: "trim (toUpperCase (numbered_reply entries rest))
        = numbered_reply ((dropWhile ws sep, ds, l) # E0) (rev (dropWhile ws (rev R)))"
  proof -
    have "trim (sep @ core @ R) = dropWhile ws sep @ core @ rev (dropWhile ws (rev R))"
      unfolding ws_def by (rule trim_core[OF c1 c2 c3])
    also have "\<dots> = numbered_reply ((dropWhile ws sep, ds, l) # E0) (rev (dropWhile ws (rev R)))"
      unfolding numbered_reply_Cons core_def
      using numbered_reply_rest[of E0 "rev (dropWhile ws (rev R))"] by simp
    finally show ?thesis unfolding shape .
  qed
  have sep': "set (dropWhile ws sep) \<inter> set digit = {}"
    using sep set_dropWhileD[of _ ws sep] by auto
  have R': "set (rev (dropWhile ws (rev R))) \<inter> set digit = {}"
    using R set_dropWhileD[of _ ws "rev R"] by auto
  have found: "rx_find_all pattern1 (trim (toUpperCase (numbered_reply entries rest)))
        = map (\<lambda>(sep, ds, l). ds @ [l]) ((dropWhile ws sep, ds, l) # E0)"
    unfolding trimmed using sep' ds l E0 R' by (intro find_all_numbered) auto
  have "map (\<lambda>m. [last m]) (map (\<lambda>(sep, ds, l). ds @ [l]) ((dropWhile ws sep, ds, l) # E0))
        = map (\<lambda>(sep, ds, l). [l]) ((sep, ds, l) # E0)"
    by (auto simp add: case_prod_beta)
  also have "\<dots> = map (\<lambda>(sep, ds, l). [toUpperCaseChar l]) entries"
    unfolding E[symmetric] by (auto simp add: up_def case_prod_beta)
  finally show ?thesis
    by (simp add: parseQuizAnswers_def Let_def found)
qed

subsection \<open>The letters of every reply\<close>

lemma pattern1_exec_SomeD:
  assumes "rx_exec pattern1 (c # t) = Some u"
  shows "\<exists>xs l. t = xs @ l # u \<and> l \<in> set ''ABCD''"
proof -
  have c: "c \<in> set digit"
    using assms pattern1_at_nondigit[of c t] by (cases "c \<in> set digit") auto
  define xs where "xs = takeWhile (\<lambda>x. x \<in> set digit) t"
  define rest where "rest = dropWhile (\<lambda>x. x \<in> set digit) t"
  have t: "t = xs @ rest" by (simp add: xs_def rest_def)
  have xs: "set xs \<subseteq> set digit"
    using set_takeWhileD[of _ "\<lambda>x. x \<in> set digit" t] by (auto simp add: xs_def)
  have r: "rest = [] \<or> hd rest \<notin> set digit"
    using hd_dropWhile[of "\<lambda>x. x \<in> set digit" t] by (auto simp add: rest_def)
  have len: "length xs \<le> length (c # t)" by (simp add: t)
  have m: "rx_match (length (c # t)) pattern1 (c # t)
           = rx_match (length (c # t)) (Cls ''ABCD'') rest"
    using pattern1_after_digits[OF c xs r len] by (simp only: t)
  from assms have "\<exists>us. rx_match (length (c # t)) pattern1 (c # t) = u # us"
    by (auto simp add: rx_exec_def split: list.splits)
  then obtain us where "rx_match (length (c # t)) (Cls ''ABCD'') rest = u # us"
    unfolding m by blast
  then obtain l where "rest = l # u" and "l \<in> set ''ABCD''"
    by (cases rest) (auto split: if_splits)
  then show ?thesis using t by blast
qed

lemma find_all_pattern1_last:
  "m \<in> set (rx_find_all pattern1 s) \<Longrightarrow> m \<noteq> [] \<and> last m \<in> set ''ABCD''"
proof (induction s rule: length_induct)
  case (1 s)
  have ih: "\<And>ys. length ys < length s \<Longrightarrow> m \<in> set (rx_find_all pattern1 ys)
            \<Longrightarrow> m \<noteq> [] \<and> last m \<in> set ''ABCD''"
    using "1.IH" by blast
  show ?case
  proof (cases s)
    case Nil
    with 1 show ?thesis by simp
  next
    case (Cons c t)
    show ?thesis
    proof (cases "rx_exec pattern1 (c # t)")
      case None
      with "1.prems" Cons have "m \<in> set (rx_find_all pattern1 t)" by simp
      then show ?thesis using ih[of t] Cons by simp
    next
      case (Some u)
      from pattern1_exec_SomeD[OF Some] obtain xs l
        where t: "t = xs @ l # u" and l: "l \<in> set ''ABCD''"
        by blast
      have shorter: "length u < length (c # t)" by (simp add: t)
      have first: "take (length (c # t) - length u) (c # t) = c # xs @ [l]"
        by (simp add: t)
      have "rx_find_all pattern1 (c # t) = (c # xs @ [l]) # rx_find_all pattern1 u"
        using Some shorter first by (simp del: take_Suc_Cons)
      with "1.prems" Cons
      have "m = c # xs @ [l] \<or> m \<in> set (rx_find_all pattern1 u)" by simp
      then show ?thesis
      proof
        assume "m = c # xs @ [l]"
        then show ?thesis using l by simp
      next
        assume "m \<in> set (rx_find_all pattern1 u)"
        then show ?thesis using ih[of u] shorter Cons by simp
      qed
    qed
  qed
qed

lemma find_all_pattern2:
  "rx_find_all pattern2 s = map (\<lambda>c. [c]) (filter (\<lambda>c. c \<in> set ''ABCD'') s)"
  by (induction s) (simp_all add: rx_exec_def pattern2_def)

lemma parseQuizAnswers_range:
  "set (parseQuizAnswers txt) \<subseteq> {''A'', ''B'', ''C'', ''D''}"
proof
  fix a assume a: "a \<in> set (parseQuizAnswers txt)"
  define msg where "msg = trim (toUpperCase txt)"
  have "(\<exists>m \<in> set (rx_find_all pattern1 msg). a = [last m])
        \<or> (\<exists>c \<in> set msg. c \<in> set ''ABCD'' \<and> a = [c])"
    using a by (auto simp add: parseQuizAnswers_def Let_def msg_def find_all_pattern2 split: if_splits)
  then have "\<exists>c. c \<in> set ''ABCD'' \<and> a = [c]"
    using find_all_pattern1_last by blast
  then show "a \<in> {''A'', ''B'', ''C'', ''D''}" by auto
qed

lemma parseQuizAnswers_case:
  "parseQuizAnswers (toLowerCase txt) = parseQuizAnswers txt"
  "parseQuizAnswers (toUpperCase txt) = parseQuizAnswers txt"
proof -
  have "toUpperCase (toLowerCase txt) = toUpperCase txt"
    by (simp add: toUpperCase_def toLowerCase_def upper_lower)
  then show "parseQuizAnswers (toLowerCase txt) = parseQuizAnswers txt"
    by (simp add: parseQuizAnswers_def)
  have "toUpperCase (toUpperCase txt) = toUpperCase txt"
    by (simp add: toUpperCase_def upper_upper)
  then show "parseQuizAnswers (toUpperCase txt) = parseQuizAnswers txt"
    by (simp add: parseQuizAnswers_def)
qed

lemma filter_dropWhile:
  "(\<And>c. Q c \<Longrightarrow> \<not> P c) \<Longrightarrow> filter P (dropWhile Q s) = filter P s"
  by (induction s) auto

lemma filter_trim:
  assumes "\<And>c. c \<in> set whitespace \<Longrightarrow> \<not> P c"
  shows "filter P (trim s) = filter P s"
proof -
  have "filter P (trim s)
        = rev (filter P (dropWhile (\<lambda>c. c \<in> set whitespace)
                                   (rev (dropWhile (\<lambda>c. c \<in> set whitespace) s))))"
    by (simp add: trim_def rev_filter)
  also have "\<dots> = rev (filter P (rev (dropWhile (\<lambda>c. c \<in> set whitespace) s)))"
    using assms by (simp add: filter_dropWhile)
  also have "\<dots> = filter P (dropWhile (\<lambda>c. c \<in> set whitespace) s)"
    by (simp add: rev_filter)
  also have "\<dots> = filter P s"
    using assms by (simp add: filter_dropWhile)
  finally show ?thesis .
qed

lemma set_trim: "set (trim s) \<subseteq> set s"
proof -
  have "set (trim s) \<subseteq> set (rev (dropWhile (\<lambda>c. c \<in> set whitespace) s))"
    unfolding trim_def set_rev by (auto dest: set_dropWhileD)
  also have "\<dots> \<subseteq> set s" by (auto dest: set_dropWhileD)
  finally show ?thesis .
qed

lemma parseQuizAnswers_without_digit:
  assumes "set reply \<inter> set digit = {}"
  shows "parseQuizAnswers reply
         = (let ls = filter (\<lambda>c. c \<in> set ''ABCD'') (toUpperCase reply)
            in if 2 \<le> length ls then map (\<lambda>c. [c]) ls else [])"
proof -
  have "set (toUpperCase reply) \<inter> set digit = {}"
    using assms upper_nondigit by (auto simp add: toUpperCase_def)
  then have "set (trim (toUpperCase reply)) \<inter> set digit = {}"
    using set_trim[of "toUpperCase reply"] by auto
  then have none: "rx_find_all pattern1 (trim (toUpperCase reply)) = []"
    by (rule find_all_pattern1_none)
  have f: "filter (\<lambda>c. c \<in> set ''ABCD'') (trim (toUpperCase reply))
           = filter (\<lambda>c. c \<in> set ''ABCD'') (toUpperCase reply)"
    using whitespace_not_letter by (intro filter_trim) blast
  show ?thesis
    unfolding parseQuizAnswers_def Let_def none find_all_pattern2 f by simp
qed

text \<open>The matches of \<open>pattern1\<close> end with the letters that stand immediately after a
  digit, and \<open>trim\<close> removes none of them: \<open>parseQuizAnswers\<close> computes what the
  description of the two forms says.\<close>

lemma letters_after_digit_start:
  "s = [] \<or> hd s \<notin> set ''ABCD'' \<Longrightarrow> letters_after_digit p s = letters_after_digit q s"
  by (cases s) auto

lemma letters_after_digits:
  "set xs \<subseteq> set digit \<Longrightarrow> letters_after_digit True (xs @ r) = letters_after_digit True r"
proof (induction xs)
  case Nil
  then show ?case by simp
next
  case (Cons d xs)
  then have "d \<in> set digit" and "d \<notin> set ''ABCD''"
    using digit_not_letter by auto
  with Cons show ?case by simp
qed

lemma find_all_pattern1_letters:
  "map last (rx_find_all pattern1 s) = letters_after_digit False s"
proof (induction s rule: length_induct)
  case (1 s)
  have ih: "\<And>ys. length ys < length s \<Longrightarrow>
              map last (rx_find_all pattern1 ys) = letters_after_digit False ys"
    using "1.IH" by blast
  show ?case
  proof (cases s)
    case Nil
    then show ?thesis by simp
  next
    case (Cons c t)
    show ?thesis
    proof (cases "c \<in> set digit")
      case False
      then show ?thesis
        using ih[of t] Cons by (simp add: pattern1_at_nondigit)
    next
      case True
      define xs where "xs = takeWhile (\<lambda>x. x \<in> set digit) t"
      define rest where "rest = dropWhile (\<lambda>x. x \<in> set digit) t"
      have t: "t = xs @ rest" by (simp add: xs_def rest_def)
      have xs: "set xs \<subseteq> set digit"
        using set_takeWhileD[of _ "\<lambda>x. x \<in> set digit" t] by (auto simp add: xs_def)
      have r: "rest = [] \<or> hd rest \<notin> set digit"
        using hd_dropWhile[of "\<lambda>x. x \<in> set digit" t] by (auto simp add: rest_def)
      have cxs: "c # xs \<noteq> []" "set (c # xs) \<subseteq> set digit"
        using True xs by auto
      show ?thesis
      proof (cases "rest \<noteq> [] \<and> hd rest \<in> set ''ABCD''")
        case True
        then obtain l u where rest: "rest = l # u" and l: "l \<in> set ''ABCD''"
          by (cases rest) auto
        have "rx_find_all pattern1 ((c # xs) @ l # u)
              = ((c # xs) @ [l]) # rx_find_all pattern1 u"
          by (rule find_all_pattern1_entry[OF cxs l])
        then have "map last (rx_find_all pattern1 s) = l # map last (rx_find_all pattern1 u)"
          by (simp add: Cons t rest)
        also have "\<dots> = l # letters_after_digit False u"
          using ih[of u] by (simp add: Cons t rest)
        also have "\<dots> = letters_after_digit True (l # u)"
          using l by simp
        also have "\<dots> = letters_after_digit True (xs @ l # u)"
          using letters_after_digits[OF xs] by simp
        also have "\<dots> = letters_after_digit False s"
          using \<open>c \<in> set digit\<close> digit_not_letter by (simp add: Cons t rest)
        finally show ?thesis .
      next
        case False
        with r have dangling: "rest = [] \<or> hd rest \<notin> set digit \<and> hd rest \<notin> set ''ABCD''"
          by auto
        have "rx_exec pattern1 ((c # xs) @ rest) = None"
          by (rule pattern1_at_dangling[OF cxs dangling])
        then have "rx_find_all pattern1 s = rx_find_all pattern1 t"
          by (simp add: Cons t)
        then have "map last (rx_find_all pattern1 s) = letters_after_digit False t"
          using ih[of t] Cons by simp
        also have "\<dots> = letters_after_digit True t"
        proof (rule letters_after_digit_start)
          show "t = [] \<or> hd t \<notin> set ''ABCD''"
            using dangling xs digit_not_letter by (cases xs) (auto simp add: t)
        qed
        also have "\<dots> = letters_after_digit False s"
          using \<open>c \<in> set digit\<close> digit_not_letter by (simp add: Cons)
        finally show ?thesis .
      qed
    qed
  qed
qed

lemma letters_after_digit_whitespace:
  "set w \<subseteq> set whitespace \<Longrightarrow> letters_after_digit p w = []"
proof (induction w arbitrary: p)
  case Nil
  then show ?case by simp
next
  case (Cons c w)
  then have "c \<notin> set ''ABCD''" and "set w \<subseteq> set whitespace"
    using whitespace_not_letter by auto
  with Cons.IH show ?case by simp
qed

lemma letters_after_digit_trailing:
  "set w \<subseteq> set whitespace \<Longrightarrow> letters_after_digit p (s @ w) = letters_after_digit p s"
  by (induction s arbitrary: p) (auto simp add: letters_after_digit_whitespace)

lemma letters_after_digit_leading:
  "letters_after_digit False (dropWhile (\<lambda>c. c \<in> set whitespace) s)
   = letters_after_digit False s"
proof (induction s)
  case Nil
  then show ?case by simp
next
  case (Cons c s)
  show ?case
  proof (cases "c \<in> set whitespace")
    case True
    then have "c \<notin> set digit" by (rule whitespace_not_digit)
    with True Cons show ?thesis by simp
  next
    case False
    then show ?thesis by simp
  qed
qed

lemma trim_decompose:
  "dropWhile (\<lambda>c. c \<in> set whitespace) s
   = trim s @ rev (takeWhile (\<lambda>c. c \<in> set whitespace)
                             (rev (dropWhile (\<lambda>c. c \<in> set whitespace) s)))"
proof -
  define y where "y = dropWhile (\<lambda>c. c \<in> set whitespace) s"
  have "rev (dropWhile (\<lambda>c. c \<in> set whitespace) (rev y))
          @ rev (takeWhile (\<lambda>c. c \<in> set whitespace) (rev y))
        = rev (takeWhile (\<lambda>c. c \<in> set whitespace) (rev y)
               @ dropWhile (\<lambda>c. c \<in> set whitespace) (rev y))"
    by (simp only: rev_append)
  also have "\<dots> = rev (rev y)"
    by (simp only: takeWhile_dropWhile_id)
  also have "\<dots> = y"
    by (simp only: rev_rev_ident)
  finally show ?thesis by (simp only: trim_def y_def)
qed

lemma letters_after_digit_trim:
  "letters_after_digit False (trim s) = letters_after_digit False s"
proof -
  define w where "w = rev (takeWhile (\<lambda>c. c \<in> set whitespace)
                             (rev (dropWhile (\<lambda>c. c \<in> set whitespace) s)))"
  have w: "set w \<subseteq> set whitespace"
  proof
    fix c assume "c \<in> set w"
    then have "c \<in> set (takeWhile (\<lambda>c. c \<in> set whitespace)
                            (rev (dropWhile (\<lambda>c. c \<in> set whitespace) s)))"
      by (simp add: w_def)
    then show "c \<in> set whitespace" by (rule set_takeWhileD[THEN conjunct2])
  qed
  have "letters_after_digit False (trim s) = letters_after_digit False (trim s @ w)"
    using letters_after_digit_trailing[OF w] by simp
  also have "\<dots> = letters_after_digit False (dropWhile (\<lambda>c. c \<in> set whitespace) s)"
    using trim_decompose[of s] by (simp add: w_def)
  also have "\<dots> = letters_after_digit False s"
    by (rule letters_after_digit_leading)
  finally show ?thesis .
qed

lemma parseQuizAnswers_letters:
  "parseQuizAnswers reply
   = (let numbered = letters_after_digit False (toUpperCase reply);
          bare = filter (\<lambda>c. c \<in> set ''ABCD'') (toUpperCase reply)
      in if numbered \<noteq> [] then map (\<lambda>c. [c]) numbered
         else if 2 \<le> length bare then map (\<lambda>c. [c]) bare else [])"
proof -
  define u where "u = toUpperCase reply"
  have m: "map last (rx_find_all pattern1 (trim u)) = letters_after_digit False u"
    by (simp add: find_all_pattern1_letters letters_after_digit_trim)
  have m1: "map (\<lambda>m. [last m]) (rx_find_all pattern1 (trim u))
            = map (\<lambda>c. [c]) (letters_after_digit False u)"
    unfolding m[symmetric] by simp
  have m2: "length (rx_find_all pattern1 (trim u)) > 0 \<longleftrightarrow> letters_after_digit False u \<noteq> []"
    unfolding m[symmetric] by simp
  have f: "filter (\<lambda>c. c \<in> set ''ABCD'') (trim u) = filter (\<lambda>c. c \<in> set ''ABCD'') u"
    using whitespace_not_letter by (intro filter_trim) blast
  show ?thesis
    unfolding parseQuizAnswers_def Let_def u_def[symmetric] m1 m2 find_all_pattern2 f
    by simp
qed

lemma parse_examples:
  "parseQuizAnswers ''1A 2C 3B'' = [''A'', ''C'', ''B'']"
  "parseQuizAnswers ''A C B'' = [''A'', ''C'', ''B'']"
  "parseQuizAnswers ''a, c, b'' = [''A'', ''C'', ''B'']"
  by code_simp+


text \<open>
  C6. \<open>parseQuizAnswers\<close> reads "1A 2C 3B", "A C B" and "a, c, b" as A, C, B. For every
  reply, with the reply taken in upper case: when some letter A to D stands immediately
  after a digit, the result is the letters that do, from left to right, without the
  digits; the bare-letter form is looked at only when there is none. In particular, on a
  reply made of entries of digits immediately followed by a letter a to d in either case,
  with any text without digits before, between and after them, the result is the letters
  of the entries in upper case, and letters standing alone between the entries are not
  answers. Every answer returned is one of the upper-case letters A, B, C, D, and the case
  of the reply does not change the result.
\<close>

theorem parseQuizAnswers_numbered_first:
  "parseQuizAnswers ''1A 2C 3B'' = [''A'', ''C'', ''B'']
   \<and> parseQuizAnswers ''A C B'' = [''A'', ''C'', ''B'']
   \<and> parseQuizAnswers ''a, c, b'' = [''A'', ''C'', ''B'']
   \<and> parseQuizAnswers reply
       = (let numbered = letters_after_digit False (toUpperCase reply);
              bare = filter (\<lambda>c. c \<in> set ''ABCD'') (toUpperCase reply)
          in if numbered \<noteq> [] then map (\<lambda>c. [c]) numbered
             else if 2 \<le> length bare then map (\<lambda>c. [c]) bare else [])
   \<and> (entries \<noteq> [] \<and> (\<forall>e \<in> set entries. numbered_entry e) \<and> (\<forall>c \<in> set rest. c \<notin> set digit)
        \<longrightarrow> parseQuizAnswers (numbered_reply entries rest)
            = map (\<lambda>(sep, ds, l). [toUpperCaseChar l]) entries)
   \<and> set (parseQuizAnswers reply) \<subseteq> {''A'', ''B'', ''C'', ''D''}
   \<and> parseQuizAnswers (toLowerCase reply) = parseQuizAnswers reply
   \<and> parseQuizAnswers (toUpperCase reply) = parseQuizAnswers reply"
  using parse_examples parseQuizAnswers_letters[of reply]
    parseQuizAnswers_numbered[of entries rest]
    parseQuizAnswers_range[of reply] parseQuizAnswers_case[of reply]
  by blast

theorem parseQuizAnswers_numbered_first_witness:
  "numbered_reply [('''', ''1'', CHR ''a''), ('' B, '', ''22'', CHR ''c'')] '' D'' = ''1a B, 22c D''
   \<and> parseQuizAnswers ''1a B, 22c D'' = [''A'', ''C'']"
proof -
  have 1: "numbered_reply [('''', ''1'', CHR ''a''), ('' B, '', ''22'', CHR ''c'')] '' D''
           = ''1a B, 22c D''"
    by (simp add: numbered_reply_def)
  have 2: "\<forall>e \<in> set [('''', ''1'', CHR ''a''), ('' B, '', ''22'', CHR ''c'')]. numbered_entry e"
    by (simp add: numbered_entry_def digit_def)
  have 3: "\<forall>c \<in> set '' D''. c \<notin> set digit"
    by (simp add: digit_def)
  have 4: "map (\<lambda>(sep, ds, l). [toUpperCaseChar l])
             [('''', ''1'', CHR ''a''), ('' B, '', ''22'', CHR ''c'')] = [''A'', ''C'']"
    by (simp add: toUpperCaseChar_def)
  show ?thesis
    using parseQuizAnswers_numbered_first[where
        entries = "[('''', ''1'', CHR ''a''), ('' B, '', ''22'', CHR ''c'')]"
        and rest = "'' D''" and reply = "''x''"]
      1 2 3 4
    by simp
qed


subsection \<open>The answer of a question read by startQuiz\<close>

lemma answer_key_entry_exec:
  "rx_exec answer_key_entry (c # t) = Some u \<Longrightarrow>
   \<exists>l. t = CHR ''-'' # l # u \<and> c \<in> set digit \<and> l \<in> set ''ABCDabcd''"
  by (cases t; cases "tl t")
     (auto simp add: rx_exec_def answer_key_entry_def seqs_def split: if_splits)

lemma find_all_answer_key_entry:
  "m \<in> set (rx_find_all answer_key_entry s) \<Longrightarrow>
   \<exists>d l. m = [d, CHR ''-'', l] \<and> d \<in> set digit \<and> l \<in> set ''ABCDabcd''"
proof (induction s rule: length_induct)
  case (1 s)
  have ih: "\<And>ys. length ys < length s \<Longrightarrow> m \<in> set (rx_find_all answer_key_entry ys)
            \<Longrightarrow> \<exists>d l. m = [d, CHR ''-'', l] \<and> d \<in> set digit \<and> l \<in> set ''ABCDabcd''"
    using "1.IH" by blast
  show ?case
  proof (cases s)
    case Nil
    with 1 show ?thesis by simp
  next
    case (Cons c t)
    show ?thesis
    proof (cases "rx_exec answer_key_entry (c # t)")
      case None
      with "1.prems" Cons have "m \<in> set (rx_find_all answer_key_entry t)" by simp
      then show ?thesis using ih[of t] Cons by simp
    next
      case (Some u)
      from answer_key_entry_exec[OF Some] obtain l
        where t: "t = CHR ''-'' # l # u" and c: "c \<in> set digit" and l: "l \<in> set ''ABCDabcd''"
        by blast
      have shorter: "length u < length (c # t)" by (simp add: t)
      have first: "take (length (c # t) - length u) (c # t) = [c, CHR ''-'', l]"
        by (simp add: t)
      have "rx_find_all answer_key_entry (c # t)
            = [c, CHR ''-'', l] # rx_find_all answer_key_entry u"
        using Some shorter first by (simp del: take_Suc_Cons)
      with "1.prems" Cons
      have "m = [c, CHR ''-'', l] \<or> m \<in> set (rx_find_all answer_key_entry u)" by simp
      then show ?thesis
      proof
        assume "m = [c, CHR ''-'', l]"
        then show ?thesis using c l by blast
      next
        assume "m \<in> set (rx_find_all answer_key_entry u)"
        then show ?thesis using ih[of u] shorter Cons by simp
      qed
    qed
  qed
qed

lemma split_answer_key_entry:
  assumes "d \<in> set digit" and "l \<in> set ''ABCDabcd''"
  shows "split_char (CHR ''-'') [d, CHR ''-'', l] = [[d], [l]]"
proof -
  have "d \<noteq> CHR ''-''" using assms(1) by (auto simp add: digit_def)
  moreover have "l \<noteq> CHR ''-''" using assms(2) by auto
  ultimately show ?thesis by simp
qed

lemma parse_question_answer:
  "answer (parse_question block) \<in> {''A'', ''B'', ''C'', ''D''}"
proof -
  define answerLine where "answerLine =
     (case find (\<lambda>l. startsWith (toLowerCase l) ''correct answers'')
                (filter (\<lambda>l. trim l \<noteq> []) (split_char (CHR 0x0A) block)) of
        Some l \<Rightarrow> l | None \<Rightarrow> [])"
  show ?thesis
  proof (cases "rx_find_all answer_key_entry answerLine")
    case Nil
    then show ?thesis
      by (simp add: parse_question_def Let_def answerLine_def)
  next
    case (Cons m ms)
    then have "m \<in> set (rx_find_all answer_key_entry answerLine)" by simp
    from find_all_answer_key_entry[OF this] obtain d l
      where m: "m = [d, CHR ''-'', l]" and d: "d \<in> set digit" and l: "l \<in> set ''ABCDabcd''"
      by blast
    have "toUpperCase (split_char (CHR ''-'') m ! 1) = [toUpperCaseChar l]"
      unfolding m split_answer_key_entry[OF d l] by (simp add: toUpperCase_def)
    moreover have "toUpperCaseChar l \<in> set ''ABCD''" using l by (rule upper_letter)
    ultimately have "toUpperCase (split_char (CHR ''-'') m ! 1) \<in> {''A'', ''B'', ''C'', ''D''}"
      by auto
    then show ?thesis
      using Cons by (simp add: parse_question_def Let_def answerLine_def)
  qed
qed


section \<open>The fallback quiz and the parser on a word\<close>

text \<open>
  C9. When the call to the language model throws, \<open>generateQuiz\<close> returns the fixed text,
  whatever the subject, and \<open>startQuiz\<close> reads 3 questions from it. The text has no line of
  correct answers: \<open>extractCorrectAnswers\<close> finds the empty key in it, and \<open>startQuiz\<close>
  gives each of the 3 questions the letter A, the default for a question without a key.
\<close>

theorem fallback_quiz_has_no_answer_key:
  "generateQuiz subj None = fallback_quiz
   \<and> length (snd (startQuiz sessions phoneNumber subj None)) = 3
   \<and> map answer (snd (startQuiz sessions phoneNumber subj None)) = [''A'', ''A'', ''A'']
   \<and> extractCorrectAnswers (generateQuiz subj None) = []
   \<and> length (extractCorrectAnswers (generateQuiz subj None)) = 0"
  using fallback_questions fallback_no_key
  by (simp add: startQuiz_questions generateQuiz_def)

text \<open>
  C7. \<open>parseQuizAnswers\<close> on "banana": the text has no digit, and the second pattern
  finds the four letters B, A, A, A inside the word, which are returned as four answers.
  (By \<open>parseQuizAnswers_without_digit\<close>, a reply without a digit gives every letter A to D
  of its upper-case form, wherever it stands, as soon as there are two of them.)
\<close>

theorem parseQuizAnswers_banana:
  "parseQuizAnswers ''banana'' = [''B'', ''A'', ''A'', ''A'']"
  by code_simp

end
